theory Spec2Isabelle
  imports Main "HOL-Library.Word"
begin

section \<open>Common Go-level notions\<close>

text \<open>
  Run-time panics of the Go code are values of the model: a function that can panic
  returns \<open>panic + 'a\<close>, with \<open>Inl\<close> for the panic.
\<close>

datatype panic =
    NilMapAssign        \<comment> \<open>assignment to entry in nil map\<close>
  | NilDereference      \<comment> \<open>method call through a nil interface or pointer\<close>
  | IndexOutOfRange
  | TypeAssertion       \<comment> \<open>failed \<open>x.(T)\<close>\<close>
  | ReflectCall         \<comment> \<open>\<open>reflect\<close>: Call using a value of the wrong type\<close>
  | UserPanic string

type_synonym int64 = "64 word"

section \<open>Package metrics (src/metrics/metrics.go)\<close>

text \<open>
  A label is an \<open>interface{}\<close>: nil, a plain value, or a \<open>func() interface{}\<close>
  that \<open>Snapshot\<close> calls.
\<close>

datatype 'a iface = INil | IVal 'a | IFunc "unit \<Rightarrow> 'a iface"

text \<open>
  The collector. Each Go map is \<open>None\<close> when it is the nil map (a zero \<open>M\<close> that
  did not come from \<open>New\<close>). A \<open>*M\<close> is an \<open>'a M option\<close>, \<open>None\<close> for the nil
  pointer. The mutex has no content in a sequential model.
\<close>

record 'a M =
  counter :: "(string \<rightharpoonup> int64) option"
  maxVal :: "(string \<rightharpoonup> int64) option"
  label :: "(string \<rightharpoonup> 'a iface) option"

definition New :: "'a M option" where
  "New = Some \<lparr>counter = Some Map.empty, maxVal = Some Map.empty, label = Some Map.empty\<rparr>"

text \<open>Reading a Go map, nil or not: the zero value for a missing key.\<close>

definition map_read :: "('k \<rightharpoonup> 'v) option \<Rightarrow> 'k \<Rightarrow> 'v option" where
  "map_read mp k = (case mp of None \<Rightarrow> None | Some f \<Rightarrow> f k)"

definition map_write :: "('k \<rightharpoonup> 'v) option \<Rightarrow> 'k \<Rightarrow> 'v \<Rightarrow> panic + ('k \<rightharpoonup> 'v) option" where
  "map_write mp k v = (case mp of None \<Rightarrow> Inl NilMapAssign | Some f \<Rightarrow> Inr (Some (f(k \<mapsto> v))))"

definition map_delete :: "('k \<rightharpoonup> 'v) option \<Rightarrow> 'k \<Rightarrow> ('k \<rightharpoonup> 'v) option" where
  "map_delete mp k = (case mp of None \<Rightarrow> None | Some f \<Rightarrow> Some (f(k := None)))"

text \<open>\<open>m.counter[name] += n\<close> on \<open>int64\<close>: the addition wraps.\<close>

definition add_counter :: "'a M \<Rightarrow> string \<Rightarrow> int64 \<Rightarrow> panic + 'a M" where
  "add_counter m name n =
     (case map_write (counter m) name
             ((case map_read (counter m) name of None \<Rightarrow> 0 | Some old \<Rightarrow> old) + n) of
        Inl p \<Rightarrow> Inl p
      | Inr c \<Rightarrow> Inr (m\<lparr>counter := c\<rparr>))"

text \<open>\<open>if old, ok := m.maxVal[name]; !ok || n > old { m.maxVal[name] = n }\<close>, signed.\<close>

definition raise_max :: "'a M \<Rightarrow> string \<Rightarrow> int64 \<Rightarrow> panic + 'a M" where
  "raise_max m name n =
     (if (case map_read (maxVal m) name of None \<Rightarrow> True | Some old \<Rightarrow> sint old < sint n)
      then (case map_write (maxVal m) name n of
              Inl p \<Rightarrow> Inl p
            | Inr v \<Rightarrow> Inr (m\<lparr>maxVal := v\<rparr>))
      else Inr m)"

definition Count :: "'a M option \<Rightarrow> string \<Rightarrow> int64 \<Rightarrow> panic + 'a M option" where
  "Count mp name n =
     (case mp of
        None \<Rightarrow> Inr None
      | Some m \<Rightarrow> map_sum id Some (add_counter m name n))"

definition SetMaxValue :: "'a M option \<Rightarrow> string \<Rightarrow> int64 \<Rightarrow> panic + 'a M option" where
  "SetMaxValue mp name n =
     (case mp of
        None \<Rightarrow> Inr None
      | Some m \<Rightarrow> map_sum id Some (raise_max m name n))"

definition CountAndSetMax :: "'a M option \<Rightarrow> string \<Rightarrow> int64 \<Rightarrow> panic + 'a M option" where
  "CountAndSetMax mp name n =
     (case mp of
        None \<Rightarrow> Inr None
      | Some m \<Rightarrow>
          (case raise_max m name n of
             Inl p \<Rightarrow> Inl p
           | Inr m' \<Rightarrow> map_sum id Some (add_counter m' name n)))"

definition put_label :: "'a M \<Rightarrow> string \<Rightarrow> 'a iface \<Rightarrow> panic + 'a M" where
  "put_label m name v =
     (if v = INil then Inr (m\<lparr>label := map_delete (label m) name\<rparr>)
      else (case map_write (label m) name v of
              Inl p \<Rightarrow> Inl p
            | Inr l \<Rightarrow> Inr (m\<lparr>label := l\<rparr>)))"

definition SetLabel :: "'a M option \<Rightarrow> string \<Rightarrow> 'a iface \<Rightarrow> panic + 'a M option" where
  "SetLabel mp name v =
     (case mp of
        None \<Rightarrow> Inr None
      | Some m \<Rightarrow> map_sum id Some (put_label m name v))"

text \<open>
  \<open>EditLabel\<close> returns, beside the collector, the arguments \<open>edit\<close> was called with,
  so that not calling it shows.
\<close>

definition EditLabel ::
  "'a M option \<Rightarrow> string \<Rightarrow> ('a iface \<Rightarrow> 'a iface) \<Rightarrow> (panic + 'a M option) \<times> 'a iface list" where
  "EditLabel mp name edit =
     (case mp of
        None \<Rightarrow> (Inr None, [])
      | Some m \<Rightarrow>
          (let cur = (case map_read (label m) name of None \<Rightarrow> INil | Some v \<Rightarrow> v)
           in (map_sum id Some (put_label m name (edit cur)), [cur])))"

record 'a snapshot =
  Counter :: "(string \<rightharpoonup> int64) option"
  MaxValue :: "(string \<rightharpoonup> int64) option"
  Label :: "(string \<rightharpoonup> 'a iface) option"

text \<open>
  \<open>for name, val := range src { dst[name] = val }\<close> into a non-nil destination: every
  entry of the source overrides the destination's.
\<close>

definition copy_into :: "('k \<rightharpoonup> 'v) option \<Rightarrow> ('k \<rightharpoonup> 'v) option \<Rightarrow> ('k \<rightharpoonup> 'v) option" where
  "copy_into src dst =
     (case dst of
        None \<Rightarrow> None
      | Some d \<Rightarrow> Some (\<lambda>k. case map_read src k of None \<Rightarrow> d k | Some v \<Rightarrow> Some v))"

definition label_now :: "'a iface \<Rightarrow> 'a iface" where
  "label_now v = (case v of IFunc fn \<Rightarrow> fn () | _ \<Rightarrow> v)"

definition Snapshot :: "'a M option \<Rightarrow> 'a snapshot \<Rightarrow> 'a snapshot" where
  "Snapshot mp snap =
     (case mp of
        None \<Rightarrow> snap
      | Some m \<Rightarrow>
          \<lparr>Counter = copy_into (counter m) (Counter snap),
           MaxValue = copy_into (maxVal m) (MaxValue snap),
           Label = copy_into (map_option (\<lambda>l. map_option label_now \<circ> l) (label m)) (Label snap)\<rparr>)"

section \<open>Package handler: ServiceMap (src/unnamed/part_000)\<close>

text \<open>
  An assigner is known by its \<open>Assign\<close> method: from a context and a method name to a
  handler, \<open>None\<close> for the nil handler. A \<open>ServiceMap\<close> maps service names to
  assigners; an entry can hold the nil interface (\<open>Some None\<close>), on which the call
  \<open>ass.Assign\<close> panics.
\<close>

type_synonym ('c, 'h) Assigner = "'c \<Rightarrow> string \<Rightarrow> panic + 'h option"

type_synonym ('c, 'h) ServiceMap = "string \<rightharpoonup> ('c, 'h) Assigner option"

text \<open>\<open>strings.SplitN(s, sep, 2)\<close> for a one-byte separator: cut at the first one.\<close>

fun cut_first :: "char \<Rightarrow> string \<Rightarrow> (string \<times> string) option" where
  "cut_first sep [] = None"
| "cut_first sep (c # cs) =
     (if c = sep then Some ([], cs)
      else (case cut_first sep cs of None \<Rightarrow> None | Some (a, b) \<Rightarrow> Some (c # a, b)))"

definition SplitN2 :: "string \<Rightarrow> char \<Rightarrow> string list" where
  "SplitN2 s sep = (case cut_first sep s of None \<Rightarrow> [s] | Some (a, b) \<Rightarrow> [a, b])"

definition ServiceMap_Assign :: "('c, 'h) ServiceMap \<Rightarrow> ('c, 'h) Assigner" where
  "ServiceMap_Assign m ctx method =
     (let parts = SplitN2 method (CHR ''.'')
      in if length parts = 1 then Inr None
         else (case m (parts ! 0) of
                 Some ass \<Rightarrow>
                   (case ass of None \<Rightarrow> Inl NilDereference | Some a \<Rightarrow> a ctx (parts ! 1))
               | None \<Rightarrow> Inr None))"

text \<open>The text before the first dot, and the text after it.\<close>

definition service_part :: "string \<Rightarrow> string" where
  "service_part s = takeWhile (\<lambda>c. c \<noteq> CHR ''.'') s"

definition method_part :: "string \<Rightarrow> string" where
  "method_part s = tl (dropWhile (\<lambda>c. c \<noteq> CHR ''.'') s)"


section \<open>Errors (src/error.go)\<close>

text \<open>
  Modelled from the spec: the error codes of package \<open>code\<close>, which is not under src/.
  The spec gives the taxonomy Parse, InvalidRequest, MethodNotFound, InvalidParams,
  Internal, the framework codes Cancelled, DeadlineExceeded and SystemError, and an
  open range for applications (\<open>AppCode\<close>, for any code that is none of the named ones).
\<close>

datatype code =
    ParseError | InvalidRequest | MethodNotFound | InvalidParams | InternalError
  | Cancelled | DeadlineExceeded | SystemError
  | AppCode int

text \<open>\<open>type Error struct\<close>; \<open>Data\<close> is a \<open>json.RawMessage\<close>, empty when absent.\<close>

record Error =
  Message :: string
  Code :: code
  Data :: string

text \<open>
  \<open>fmt.Sprintf\<close>, for the verbs the code uses: every two-byte verb (\<open>%v\<close>, \<open>%q\<close>,
  \<open>%d\<close>, \<open>%w\<close>, \<open>%s\<close>) is replaced by the next argument, which the caller has
  rendered (\<open>Quote\<close> for \<open>%q\<close>, \<open>Itoa\<close> for \<open>%d\<close>, the error's text for \<open>%v\<close>
  and \<open>%w\<close>).
\<close>

fun Sprintf :: "string \<Rightarrow> string list \<Rightarrow> string" where
  "Sprintf [] args = []"
| "Sprintf [c] args = [c]"
| "Sprintf (c # d # cs) args =
     (if c = CHR ''%'' then
        (case args of
           [] \<Rightarrow> ''%!'' @ [d] @ ''(MISSING)'' @ Sprintf cs []
         | a # as \<Rightarrow> a @ Sprintf cs as)
      else c # Sprintf (d # cs) args)"

text \<open>\<open>strconv.Quote\<close> on the bytes it leaves alone, the quote and the backslash.\<close>

fun quote_body :: "string \<Rightarrow> string" where
  "quote_body [] = []"
| "quote_body (c # cs) =
     (if c = CHR 0x22 \<or> c = CHR 0x5C then CHR 0x5C # c # quote_body cs else c # quote_body cs)"

definition Quote :: "string \<Rightarrow> string" where
  "Quote s = CHR 0x22 # quote_body s @ [CHR 0x22]"

text \<open>Decimal text of a number: \<open>strconv.FormatInt(i, 10)\<close>, \<open>%d\<close>.\<close>

definition digit :: "nat \<Rightarrow> char" where
  "digit d = ''0123456789'' ! (d mod 10)"

fun nat_dec :: "nat \<Rightarrow> string" where
  "nat_dec n = (if n < 10 then [digit n] else nat_dec (n div 10) @ [digit (n mod 10)])"

declare nat_dec.simps [simp del]

definition FormatInt :: "int \<Rightarrow> string" where
  "FormatInt i = (if i < 0 then CHR ''-'' # nat_dec (nat (- i)) else nat_dec (nat i))"

text \<open>
  Go \<open>error\<close> values. The sentinels are compared by identity in the code, so each is a
  constructor of its own. \<open>Errorf\<close> keeps the format and the rendered arguments of a
  \<open>fmt.Errorf\<close>; \<open>RPCError\<close> is an \<open>*Error\<close>.
\<close>

datatype error =
    EOF                          \<comment> \<open>\<open>io.EOF\<close>\<close>
  | ClientStopped                \<comment> \<open>\<open>errClientStopped\<close>\<close>
  | ServerStopped                \<comment> \<open>\<open>errServerStopped\<close>\<close>
  | ConnClosed                   \<comment> \<open>\<open>ErrConnClosed\<close>\<close>
  | ContextCanceled              \<comment> \<open>\<open>context.Canceled\<close>\<close>
  | ContextDeadlineExceeded      \<comment> \<open>\<open>context.DeadlineExceeded\<close>\<close>
  | ErrorsNew string             \<comment> \<open>\<open>errors.New\<close>, and any other error known by its text\<close>
  | Errorf string "string list"  \<comment> \<open>\<open>fmt.Errorf\<close>\<close>
  | RPCError Error

definition errEmptyMethod :: Error where
  "errEmptyMethod = \<lparr>Message = ''empty method name'', Code = InvalidRequest, Data = []\<rparr>"


definition errEmptyBatch :: Error where
  "errEmptyBatch = \<lparr>Message = ''empty request batch'', Code = InvalidRequest, Data = []\<rparr>"

text \<open>\<open>func Errorf(code code.Code, msg string, args ...interface{}) *Error\<close>\<close>

definition RPCErrorf :: "code \<Rightarrow> string \<Rightarrow> string list \<Rightarrow> Error" where
  "RPCErrorf c msg args = \<lparr>Message = Sprintf msg args, Code = c, Data = []\<rparr>"

section \<open>JSON values and their encoding (encoding/json)\<close>

text \<open>
  A JSON number is kept by its literal: sign, integer part, fraction digits, exponent.
  An object keeps its members in order, duplicates included.
\<close>

datatype number = Number bool nat "nat list" "int option"

datatype json =
    JNull
  | JBool bool
  | JNum number
  | JStr string
  | JArr "json list"
  | JObj "(string \<times> json) list"

definition number_text :: "number \<Rightarrow> string" where
  "number_text n =
     (case n of Number neg whole frac ex \<Rightarrow>
        (if neg then ''-'' else []) @ nat_dec whole @
        (if frac = [] then [] else CHR ''.'' # map digit frac) @
        (case ex of None \<Rightarrow> [] | Some e \<Rightarrow> CHR ''e'' # FormatInt e))"

fun commas :: "string list \<Rightarrow> string" where
  "commas [] = []"
| "commas [x] = x"
| "commas (x # y # ys) = x @ CHR '','' # commas (y # ys)"

text \<open>The compact text \<open>json.Marshal\<close> writes for a value.\<close>

fun encode :: "json \<Rightarrow> string" where
  "encode JNull = ''null''"
| "encode (JBool b) = (if b then ''true'' else ''false'')"
| "encode (JNum n) = number_text n"
| "encode (JStr s) = Quote s"
| "encode (JArr xs) = CHR ''['' # commas (map encode xs) @ '']''"
| "encode (JObj kvs) =
     CHR ''{'' # commas (map (\<lambda>kv. Quote (fst kv) @ CHR '':'' # encode (snd kv)) kvs) @ ''}''"

text \<open>
  The bytes handed to \<open>json.Unmarshal\<close>: malformed (with the decoder's message), or
  the text of a value. A \<open>json.RawMessage\<close> cut out of a parsed text is kept as the
  value it is the text of.
\<close>

datatype json_text = Malformed string | Parsed json

definition kind_name :: "json \<Rightarrow> string" where
  "kind_name j =
     (case j of JNull \<Rightarrow> ''null'' | JBool _ \<Rightarrow> ''bool'' | JNum _ \<Rightarrow> ''number''
      | JStr _ \<Rightarrow> ''string'' | JArr _ \<Rightarrow> ''array'' | JObj _ \<Rightarrow> ''object'')"

text \<open>
  \<open>json.Unmarshal(data, &elts)\<close> for \<open>var elts []json.RawMessage\<close>: an array gives its
  elements, \<open>null\<close> leaves the nil slice, anything else is an error (kept by its text).
\<close>

definition Unmarshal_raw_list :: "json_text \<Rightarrow> string + json list" where
  "Unmarshal_raw_list data =
     (case data of
        Malformed msg \<Rightarrow> Inl msg
      | Parsed j \<Rightarrow>
          (case j of
             JArr xs \<Rightarrow> Inr xs
           | JNull \<Rightarrow> Inr []
           | _ \<Rightarrow> Inl (''json: cannot unmarshal '' @ kind_name j @
                        '' into Go value of type []json.RawMessage'')))"

section \<open>Package handler: the adapter (src/unnamed/part_000)\<close>

text \<open>
  Modelled from the spec: the in-process request of package jrpc2 (its declaration is
  not under src/), an immutable view exposing the method name, the raw params bytes,
  an optional ID, and a \<open>HasParams\<close> predicate, which holds when the request carries
  params.
\<close>

record Request =
  req_id :: string
  req_method :: string
  req_params :: string

definition HasParams :: "Request \<Rightarrow> bool" where
  "HasParams req = (req_params req \<noteq> [])"

text \<open>The types \<open>reflect\<close> tells apart here, and a function type.\<close>

datatype go_type =
    ctxType                 \<comment> \<open>\<open>context.Context\<close>\<close>
  | errType                 \<comment> \<open>\<open>error\<close>\<close>
  | reqType                 \<comment> \<open>\<open>*jrpc2.Request\<close>\<close>
  | PtrTo go_type
  | Named string

record func_type =
  ins :: "go_type list"
  outs :: "go_type list"
  variadic :: bool

fun is_Ptr :: "go_type \<Rightarrow> bool" where
  "is_Ptr reqType = True"
| "is_Ptr (PtrTo t) = True"
| "is_Ptr t = False"

text \<open>
  The values passed to and returned by a user function (\<open>reflect.Value\<close>): a context,
  a request, an \<open>error\<close> (nil or not), or any other value.
\<close>

datatype ('c, 'v) val =
    VContext 'c
  | VRequest Request
  | VError "error option"
  | VOther 'v
  | VPointer "('c, 'v) val"   \<comment> \<open>the pointer \<open>reflect.New\<close> returns, to the value decoded\<close>

text \<open>
  What a handler returns: the pair \<open>(interface{}, error)\<close>, or a panic; and, to tell
  whether the user function ran, the argument lists it was called with.
\<close>

record ('c, 'v) invocation =
  calls :: "('c, 'v) val list list"
  reply :: "panic + (('c, 'v) val option \<times> error option)"

type_synonym ('c, 'v) Func = "'c \<Rightarrow> Request \<Rightarrow> ('c, 'v) invocation"

text \<open>
  The \<open>fn interface{}\<close> given to \<open>New\<close>: nil, a value that is not a function, a function
  of the exact \<open>Handle\<close> signature, or any other function with its type.
\<close>

datatype ('c, 'v) fn_value =
    NilFn
  | NotAFunc
  | HandleFn "'c \<Rightarrow> Request \<Rightarrow> ('c, 'v) val option \<times> error option"
  | ReflectFn func_type "('c, 'v) val list \<Rightarrow> ('c, 'v) val list"

record funcInfo =
  Type :: func_type
  Argument :: "go_type option"
  IsVariadic :: bool
  Result :: "go_type option"
  ReportsError :: bool

definition checkFunctionType :: "func_type \<Rightarrow> error + funcInfo" where
  "checkFunctionType ft =
     (let np = length (ins ft); no = length (outs ft) in
      if np = 0 \<or> np > 2 then Inl (ErrorsNew ''wrong number of parameters'')
      else if no < 1 \<or> no > 2 then Inl (ErrorsNew ''wrong number of results'')
      else if ins ft ! 0 \<noteq> ctxType then Inl (ErrorsNew ''first parameter is not context.Context'')
      else if no = 2 \<and> outs ft ! 1 \<noteq> errType then Inl (ErrorsNew ''result is not of type error'')
      else
        (let reports = (outs ft ! (no - 1) = errType) in
         Inr \<lparr>Type = ft,
              Argument = (if np = 2 then Some (ins ft ! 1) else None),
              IsVariadic = (if np = 2 then variadic ft else False),
              Result = (if no = 2 \<or> \<not> reports then Some (outs ft ! 0) else None),
              ReportsError = reports\<rparr>))"

text \<open>
  \<open>newinput\<close>: the arguments after the context, each a \<open>reflect.Value\<close> with its type.
  \<open>UnmarshalParams\<close> is a method of the request that is not under src/; it is a
  parameter here: for the type \<open>T\<close> that \<open>reflect.New\<close> allocates it gives either the
  value decoded into the new \<open>*T\<close> or its error, of which the code uses the text.
  Case 3a allocates \<open>reflect.New(info.Argument)\<close> and passes the pointer itself, of type
  pointer to \<open>info.Argument\<close>; case 3b passes \<open>in.Elem()\<close>, of type \<open>info.Argument\<close>.
\<close>

definition newinput ::
  "(go_type \<Rightarrow> Request \<Rightarrow> string + ('c, 'v) val) \<Rightarrow> funcInfo \<Rightarrow> Request \<Rightarrow>
     error + (go_type \<times> ('c, 'v) val) list" where
  "newinput UnmarshalParams info req =
     (case Argument info of
        None \<Rightarrow>
          (if HasParams req then Inl (RPCError (RPCErrorf InvalidParams ''no parameters accepted'' []))
           else Inr [])
      | Some arg \<Rightarrow>
          (if arg = reqType then Inr [(reqType, VRequest req)]
           else if is_Ptr arg then
             (case UnmarshalParams arg req of
                Inl msg \<Rightarrow> Inl (RPCError (RPCErrorf InvalidParams ''invalid parameters: %v'' [msg]))
              | Inr v \<Rightarrow> Inr [(PtrTo arg, VPointer v)])
           else
             (case UnmarshalParams arg req of
                Inl msg \<Rightarrow> Inl (RPCError (RPCErrorf InvalidParams ''invalid parameters: %v'' [msg]))
              | Inr v \<Rightarrow> Inr [(arg, v)])))"

text \<open>
  \<open>f.Call(args)\<close> and \<open>f.CallSlice(args)\<close>: \<open>reflect\<close> panics, before the function is
  entered, when an argument's type is not the parameter's.
\<close>

definition call ::
  "func_type \<Rightarrow> (('c, 'v) val list \<Rightarrow> ('c, 'v) val list) \<Rightarrow> (go_type \<times> ('c, 'v) val) list \<Rightarrow>
     panic + ('c, 'v) val list" where
  "call ft f args = (if map fst args = ins ft then Inr (f (map snd args)) else Inl ReflectCall)"

text \<open>
  \<open>decodeOut\<close>: from the values the call returned to the handler's pair. The user
  function of the model is untyped, so a result list that does not fit the function
  type shows as the panic the index or the type assertion would raise.
\<close>

definition as_error :: "('c, 'v) val \<Rightarrow> panic + (('c, 'v) val option \<times> error option)" where
  "as_error v = (case v of VError (Some e) \<Rightarrow> Inr (None, Some e) | _ \<Rightarrow> Inl TypeAssertion)"

definition Interface :: "('c, 'v) val \<Rightarrow> ('c, 'v) val option" where
  "Interface v = (case v of VError None \<Rightarrow> None | _ \<Rightarrow> Some v)"

definition decodeOut ::
  "funcInfo \<Rightarrow> ('c, 'v) val list \<Rightarrow> panic + (('c, 'v) val option \<times> error option)" where
  "decodeOut info vals =
     (if Result info = None then
        (case vals of
           [] \<Rightarrow> Inl IndexOutOfRange
         | oerr # _ \<Rightarrow> (if Interface oerr \<noteq> None then as_error oerr else Inr (None, None)))
      else if \<not> ReportsError info then
        (case vals of
           [] \<Rightarrow> Inl IndexOutOfRange
         | out # _ \<Rightarrow> Inr (Interface out, None))
      else
        (case vals of
           out # oerr # _ \<Rightarrow>
             (if Interface oerr \<noteq> None then as_error oerr else Inr (Interface out, None))
         | _ \<Rightarrow> Inl IndexOutOfRange))"

definition newHandler ::
  "(go_type \<Rightarrow> Request \<Rightarrow> string + ('c, 'v) val) \<Rightarrow> ('c, 'v) fn_value \<Rightarrow>
     error + ('c, 'v) Func" where
  "newHandler UnmarshalParams fn =
     (case fn of
        NilFn \<Rightarrow> Inl (ErrorsNew ''nil method'')
      | HandleFn f \<Rightarrow> Inr (\<lambda>ctx req. \<lparr>calls = [[VContext ctx, VRequest req]], reply = Inr (f ctx req)\<rparr>)
      | NotAFunc \<Rightarrow> Inl (ErrorsNew ''not a function'')
      | ReflectFn ft f \<Rightarrow>
          (case checkFunctionType ft of
             Inl err \<Rightarrow> Inl err
           | Inr info \<Rightarrow>
               Inr (\<lambda>ctx req.
                 (case newinput UnmarshalParams info req of
                    Inl ierr \<Rightarrow> \<lparr>calls = [], reply = Inr (None, Some ierr)\<rparr>
                  | Inr rest \<Rightarrow>
                      (let args = [(ctxType, VContext ctx)] @ rest in
                       case call ft f args of
                         Inl p \<Rightarrow> \<lparr>calls = [], reply = Inl p\<rparr>
                       | Inr vals \<Rightarrow> \<lparr>calls = [map snd args], reply = decodeOut info vals\<rparr>)))))"

section \<open>Package handler: Args and Obj (src/unnamed/part_000)\<close>

text \<open>
  An element of an \<open>Args\<close> or a value of an \<open>Obj\<close> is an \<open>interface{}\<close>: nil (\<open>None\<close>), or
  a destination. A destination holds a value and has the decoder of its type:
  \<open>json.Unmarshal(elt, dst)\<close> either stores a value or fails with an error, of which
  the code uses the text (a destination that is not a pointer always fails).
\<close>

record 'v target =
  decode :: "json \<Rightarrow> string + 'v"
  held :: 'v

definition Unmarshal_into :: "json \<Rightarrow> 'v target \<Rightarrow> string + 'v target" where
  "Unmarshal_into elt dst =
     (case decode dst elt of Inl msg \<Rightarrow> Inl msg | Inr v \<Rightarrow> Inr (dst\<lparr>held := v\<rparr>))"

type_synonym 'v Args = "'v target option list"

text \<open>
  The loop of \<open>Args.UnmarshalJSON\<close>, at index \<open>i\<close>: the error, if any, and the
  destinations as the loop leaves them. An index past the end of \<open>a\<close> panics.
\<close>

fun Args_loop :: "nat \<Rightarrow> json list \<Rightarrow> 'v Args \<Rightarrow> panic + (error option \<times> 'v Args)" where
  "Args_loop i [] a = Inr (None, a)"
| "Args_loop i (elt # elts) [] = Inl IndexOutOfRange"
| "Args_loop i (elt # elts) (d # a) =
     (case d of
        None \<Rightarrow>
          (case Args_loop (i + 1) elts a of
             Inl p \<Rightarrow> Inl p
           | Inr (e, a') \<Rightarrow> Inr (e, d # a'))
      | Some dst \<Rightarrow>
          (case Unmarshal_into elt dst of
             Inl msg \<Rightarrow>
               Inr (Some (Errorf ''decoding argument %d: %w'' [FormatInt (int (i + 1)), msg]), d # a)
           | Inr dst' \<Rightarrow>
               (case Args_loop (i + 1) elts a of
                  Inl p \<Rightarrow> Inl p
                | Inr (e, a') \<Rightarrow> Inr (e, Some dst' # a'))))"

definition Args_UnmarshalJSON :: "'v Args \<Rightarrow> json_text \<Rightarrow> panic + (error option \<times> 'v Args)" where
  "Args_UnmarshalJSON a data =
     (case Unmarshal_raw_list data of
        Inl msg \<Rightarrow> Inr (Some (Errorf ''decoding args: %w'' [msg]), a)
      | Inr elts \<Rightarrow>
          (if length elts \<noteq> length a then
             Inr (Some (Errorf ''wrong number of args (got %d, want %d)''
                         [FormatInt (int (length elts)), FormatInt (int (length a))]), a)
           else Args_loop 0 elts a))"

text \<open>
  \<open>json.Marshal([]interface{}(a))\<close>: \<open>null\<close> for a nil element, the encoding of the held
  value otherwise; \<open>enc\<close> is \<open>json.Marshal\<close> on the values held, which fails on a value
  that is not marshalable.
\<close>

fun Marshal_elements :: "('v \<Rightarrow> string + json) \<Rightarrow> 'v Args \<Rightarrow> string + json list" where
  "Marshal_elements enc [] = Inr []"
| "Marshal_elements enc (d # a) =
     (case (case d of None \<Rightarrow> Inr JNull | Some dst \<Rightarrow> enc (held dst)) of
        Inl msg \<Rightarrow> Inl msg
      | Inr j \<Rightarrow>
          (case Marshal_elements enc a of
             Inl msg \<Rightarrow> Inl msg
           | Inr js \<Rightarrow> Inr (j # js)))"

definition Args_MarshalJSON :: "('v \<Rightarrow> string + json) \<Rightarrow> 'v Args \<Rightarrow> error + string" where
  "Args_MarshalJSON enc a =
     (if length a = 0 then Inr ''[]''
      else (case Marshal_elements enc a of
              Inl msg \<Rightarrow> Inl (ErrorsNew msg)
            | Inr js \<Rightarrow> Inr (encode (JArr js))))"

type_synonym 'v Obj = "string \<rightharpoonup> 'v target option"

text \<open>
  The entries of the \<open>map[string]json.RawMessage\<close> an object decodes to: one for each
  key, with the last member of a repeated key.
\<close>

fun raw_entries :: "(string \<times> json) list \<Rightarrow> (string \<times> json) list" where
  "raw_entries [] = []"
| "raw_entries (kv # kvs) =
     (if fst kv \<in> fst ` set kvs then raw_entries kvs else kv # raw_entries kvs)"

text \<open>The value an object has for a key: that of the last member with the key.\<close>

definition member_value :: "(string \<times> json) list \<Rightarrow> string \<rightharpoonup> json" where
  "member_value kvs = map_of (rev kvs)"

text \<open>
  \<open>json.Unmarshal(data, &base)\<close> for \<open>var base map[string]json.RawMessage\<close>: an object
  gives its entries; \<open>null\<close> leaves the nil map, which has none; anything else is an
  error.
\<close>

definition Unmarshal_raw_map :: "json_text \<Rightarrow> string + (string \<times> json) list" where
  "Unmarshal_raw_map data =
     (case data of
        Malformed msg \<Rightarrow> Inl msg
      | Parsed j \<Rightarrow>
          (case j of
             JObj kvs \<Rightarrow> Inr (raw_entries kvs)
           | JNull \<Rightarrow> Inr []
           | _ \<Rightarrow> Inl (''json: cannot unmarshal '' @ kind_name j @
                        '' into Go value of type map[string]json.RawMessage'')))"

text \<open>
  The loop of \<open>Obj.UnmarshalJSON\<close> over the entries of \<open>base\<close>, in the order the runtime
  visits them: the error, if any, and the map as the loop leaves it.
  \<open>json.Unmarshal(val, nil)\<close> on a nil \<open>arg\<close> is an error.
\<close>

fun Obj_loop :: "(string \<times> json) list \<Rightarrow> 'v Obj \<Rightarrow> error option \<times> 'v Obj" where
  "Obj_loop [] ob = (None, ob)"
| "Obj_loop ((key, val) # base) ob =
     (case ob key of
        None \<Rightarrow> Obj_loop base ob
      | Some arg \<Rightarrow>
          (case (case arg of
                   None \<Rightarrow> Inl ''json: Unmarshal(nil)''
                 | Some dst \<Rightarrow> Unmarshal_into val dst) of
             Inl msg \<Rightarrow> (Some (Errorf ''decoding %q: %v'' [Quote key, msg]), ob)
           | Inr dst' \<Rightarrow> Obj_loop base (ob(key \<mapsto> Some dst'))))"

text \<open>
  \<open>order\<close> is the runtime's choice of an iteration order for the entries of a map.
\<close>

definition Obj_UnmarshalJSON ::
  "((string \<times> json) list \<Rightarrow> (string \<times> json) list) \<Rightarrow> 'v Obj \<Rightarrow> json_text \<Rightarrow>
     error option \<times> 'v Obj" where
  "Obj_UnmarshalJSON order ob data =
     (case Unmarshal_raw_map data of
        Inl msg \<Rightarrow> (Some (Errorf ''decoding object: %v'' [msg]), ob)
      | Inr base \<Rightarrow> Obj_loop (order base) ob)"

section \<open>The client (src/unnamed/part_001)\<close>

text \<open>
  The wire messages are declared outside src/; their fields are the ones the client
  reads and writes. A \<open>json.RawMessage\<close> is its bytes, empty for nil.
\<close>

record jrequest =
  V :: string
  ID :: string
  M :: string
  P :: string

record jresponse =
  rV :: string
  rID :: string
  rE :: "Error option"
  rR :: string
  rM :: string
  rP :: string

text \<open>Modelled from the spec: the version marker, \<open>jsonrpc\<close> MUST equal \<open>"2.0"\<close>.\<close>

definition Version :: string where
  "Version = ''2.0''"

text \<open>
  A context: what \<open>Err()\<close> returns (\<open>None\<close> until the context is done), and the values it
  carries, if any.
\<close>

datatype ctx_error = Canceled | DeadlineExceededErr

record 'x ctx =
  Err :: "ctx_error option"
  payload :: "'x option"

definition Background :: "'x ctx" where
  "Background = \<lparr>Err = None, payload = None\<rparr>"

definition ctx_error_text :: "ctx_error \<Rightarrow> string" where
  "ctx_error_text e =
     (case e of Canceled \<Rightarrow> ''context canceled'' | DeadlineExceededErr \<Rightarrow> ''context deadline exceeded'')"

text \<open>
  Modelled from the spec: \<open>code.FromError\<close> of package \<open>code\<close> (not under src/), on the
  errors of a context: Cancelled for a cancelled context, DeadlineExceeded for an
  exceeded deadline.
\<close>

definition FromError :: "ctx_error \<Rightarrow> code" where
  "FromError e = (case e of Canceled \<Rightarrow> Cancelled | DeadlineExceededErr \<Rightarrow> DeadlineExceeded)"

text \<open>
  Modelled from the spec: \<open>jerrorf\<close> of base.go (not under src/), which builds the error of
  a response, \<open>{code, message, data?}\<close>, from a code and a format: the code and the
  formatted message, without data, as \<open>Errorf\<close> of error.go builds an \<open>*Error\<close>.
\<close>

definition jerrorf :: "code \<Rightarrow> string \<Rightarrow> string list \<Rightarrow> Error" where
  "jerrorf c msg args = RPCErrorf c msg args"

text \<open>
  A pending response: the buffered channel of capacity 1 (\<open>None\<close> while empty), the
  ID, and the context \<open>newPending\<close> derives for it, on which \<open>cancel\<close> acts.
\<close>

record 'x Response =
  rsp_ch :: "jresponse option"
  rsp_id :: string
  rsp_ctx :: "'x ctx"

definition newPending :: "'x ctx \<Rightarrow> string \<Rightarrow> 'x Response" where
  "newPending c i = \<lparr>rsp_ch = None, rsp_id = i, rsp_ctx = c\<rparr>"

definition cancel :: "'x Response \<Rightarrow> 'x Response" where
  "cancel p =
     (if Err (rsp_ctx p) = None then p\<lparr>rsp_ctx := (rsp_ctx p)\<lparr>Err := Some Canceled\<rparr>\<rparr> else p)"

text \<open>
  A \<open>channel.Channel\<close> is an interface: the methods over the state of the channel
  object. \<open>Send\<close> returns its error, or \<open>None\<close> for nil.
\<close>

record 'ch Channel =
  Send :: "'ch \<Rightarrow> string \<Rightarrow> error option \<times> 'ch"
  Recv :: "'ch \<Rightarrow> (error + string) \<times> 'ch"
  Close :: "'ch \<Rightarrow> 'ch"

text \<open>
  The client. \<open>ch\<close> is the channel object, which the reader shares; \<open>ch_nil\<close> tells that
  the field \<open>c.ch\<close> has been set to nil. The logger has no content here.
\<close>

record ('x, 'ch) Client =
  enctx :: "'x ctx \<Rightarrow> string \<Rightarrow> string \<Rightarrow> error + string"
  snote :: "jresponse \<Rightarrow> bool"
  allow1 :: bool
  allowC :: bool
  ch :: 'ch
  ch_nil :: bool
  err :: "error option"
  pending :: "string \<rightharpoonup> 'x Response"
  nextID :: int64

text \<open>The options as their accessors of part_002 resolve them.\<close>

record 'x ClientOptions =
  allowV1 :: bool
  allowCancel :: bool
  encodeContext :: "'x ctx \<Rightarrow> string \<Rightarrow> string \<Rightarrow> error + string"
  handleNotification :: "jresponse \<Rightarrow> bool"

definition NewClient :: "'ch \<Rightarrow> 'x ClientOptions \<Rightarrow> ('x, 'ch) Client" where
  "NewClient c opts =
     \<lparr>enctx = encodeContext opts, snote = handleNotification opts,
      allow1 = allowV1 opts, allowC = allowCancel opts,
      ch = c, ch_nil = False, err = None, pending = Map.empty, nextID = 1\<rparr>"

text \<open>What the calls of the client return: a panic, an error, or a value.\<close>

datatype 'a result = Panics panic | Fails error | Returns 'a

text \<open>
  The params of a call, an \<open>interface{}\<close>: \<open>None\<close> for nil, or a value, which
  \<open>json.Marshal\<close> encodes or rejects.
\<close>

datatype go_value =
    Encodes json                \<comment> \<open>a value with this JSON encoding\<close>
  | RawMessages "string list"   \<comment> \<open>a \<open>[]json.RawMessage\<close> of valid texts\<close>
  | Unencodable string          \<comment> \<open>a value \<open>json.Marshal\<close> rejects, with its message\<close>

definition json_Marshal :: "go_value \<Rightarrow> string + string" where
  "json_Marshal v =
     (case v of
        Encodes j \<Rightarrow> Inr (encode j)
      | RawMessages xs \<Rightarrow> Inr (CHR ''['' # commas xs @ '']'')
      | Unencodable msg \<Rightarrow> Inl msg)"

definition marshalParams ::
  "('x, 'ch) Client \<Rightarrow> 'x ctx \<Rightarrow> string \<Rightarrow> go_value option \<Rightarrow> error + string" where
  "marshalParams c cx method params =
     (case params of
        None \<Rightarrow> enctx c cx method []
      | Some v \<Rightarrow>
          (case json_Marshal v of
             Inl msg \<Rightarrow> Inl (ErrorsNew msg)
           | Inr pbits \<Rightarrow>
               (if (case pbits of
                      [] \<Rightarrow> True
                    | b # _ \<Rightarrow> b \<noteq> CHR ''['' \<and> b \<noteq> CHR ''{'' \<and> pbits \<noteq> ''null'')
                then Inl (RPCError (RPCErrorf InvalidRequest
                            ''invalid parameters: array or object required'' []))
                else enctx c cx method pbits)))"

definition req ::
  "('x, 'ch) Client \<Rightarrow> 'x ctx \<Rightarrow> string \<Rightarrow> go_value option \<Rightarrow>
     (error + jrequest) \<times> ('x, 'ch) Client" where
  "req c cx method params =
     (case marshalParams c cx method params of
        Inl e \<Rightarrow> (Inl e, c)
      | Inr bits \<Rightarrow>
          (Inr \<lparr>V = Version, ID = FormatInt (sint (nextID c)), M = method, P = bits\<rparr>,
           c\<lparr>nextID := nextID c + 1\<rparr>))"

definition note_request ::
  "('x, 'ch) Client \<Rightarrow> 'x ctx \<Rightarrow> string \<Rightarrow> go_value option \<Rightarrow> error + jrequest" where
  "note_request c cx method params =
     (case marshalParams c cx method params of
        Inl e \<Rightarrow> Inl e
      | Inr bits \<Rightarrow> Inr \<lparr>V = Version, ID = [], M = method, P = bits\<rparr>)"

text \<open>
  The second loop of \<open>send\<close>: a pending response for every request that has an ID,
  stored under the ID and appended to \<open>pends\<close>.
\<close>

fun record_pending ::
  "'x ctx \<Rightarrow> jrequest list \<Rightarrow> (string \<rightharpoonup> 'x Response) \<Rightarrow>
     (string \<rightharpoonup> 'x Response) \<times> 'x Response list" where
  "record_pending cx [] pend = (pend, [])"
| "record_pending cx (r # rs) pend =
     (if ID r \<noteq> [] then
        (let p = newPending cx (ID r);
             (pend', pends) = record_pending cx rs (pend(ID r \<mapsto> p))
         in (pend', p # pends))
      else record_pending cx rs pend)"

text \<open>
  \<open>send\<close>. \<open>marshal\<close> is \<open>json.Marshal\<close> on the batch, whose encoder is declared outside
  src/: the bytes, or the error's text.
\<close>

definition send ::
  "'ch Channel \<Rightarrow> (jrequest list \<Rightarrow> string + string) \<Rightarrow> ('x, 'ch) Client \<Rightarrow> 'x ctx \<Rightarrow>
     jrequest list \<Rightarrow> 'x Response list result \<times> ('x, 'ch) Client" where
  "send ops marshal c cx reqs =
     (if length reqs = 0 then (Fails (ErrorsNew ''empty request batch''), c)
      else
        (case err c of
           Some e \<Rightarrow> (Fails e, c)
         | None \<Rightarrow>
             (case find (\<lambda>r. ID r \<noteq> [] \<and> pending c (ID r) \<noteq> None) reqs of
                Some r \<Rightarrow> (Fails (Errorf ''duplicate request ID %q'' [Quote (ID r)]), c)
              | None \<Rightarrow>
                  (case marshal reqs of
                     Inl msg \<Rightarrow> (Fails (Errorf ''marshaling request failed: %v'' [msg]), c)
                   | Inr b \<Rightarrow>
                       (if ch_nil c then (Panics NilDereference, c)
                        else
                          (case Send ops (ch c) b of
                             (Some e, ch') \<Rightarrow> (Fails e, c\<lparr>ch := ch'\<rparr>)
                           | (None, ch') \<Rightarrow>
                               (let (pend', pends) = record_pending cx reqs (pending c)
                                in (Returns pends, c\<lparr>ch := ch', pending := pend'\<rparr>))))))))"

definition versionOK :: "('x, 'ch) Client \<Rightarrow> string \<Rightarrow> bool" where
  "versionOK c v = (if v = [] then allow1 c else v = Version)"

text \<open>
  What \<open>deliver\<close> does with a response: hands it to the notification callback, drops
  it, or puts a message into the channel of a pending response (\<open>p.ch <- x\<close>).
\<close>

datatype 'x delivery = Notified bool | Unknown string | Delivered "'x Response"

text \<open>
  \<open>deliver\<close>. \<open>fixID\<close> is declared outside src/ and is a parameter: the text of the ID,
  empty for none.
\<close>

definition deliver ::
  "(string \<Rightarrow> string) \<Rightarrow> ('x, 'ch) Client \<Rightarrow> jresponse \<Rightarrow> 'x delivery \<times> ('x, 'ch) Client" where
  "deliver fixID c rsp =
     (let i = fixID (rID rsp) in
      if i = [] then (Notified (snote c rsp), c)
      else
        (case pending c i of
           None \<Rightarrow> (Unknown i, c)
         | Some p \<Rightarrow>
             (if \<not> versionOK c (rV rsp) then
                (Delivered (p\<lparr>rsp_ch := Some \<lparr>rV = [], rID = rID rsp,
                     rE = Some (jerrorf InvalidRequest ''incorrect version marker %q'' [Quote (rV rsp)]),
                     rR = [], rM = [], rP = []\<rparr>\<rparr>),
                 c\<lparr>pending := (pending c)(i := None)\<rparr>)
              else
                (Delivered (p\<lparr>rsp_ch := Some rsp\<rparr>), c\<lparr>pending := (pending c)(i := None)\<rparr>))))"

text \<open>
  \<open>stop\<close>: closes the channel, cancels every pending response, records the error.
\<close>

definition stop :: "'ch Channel \<Rightarrow> ('x, 'ch) Client \<Rightarrow> error \<Rightarrow> ('x, 'ch) Client" where
  "stop ops c e =
     (if ch_nil c then c
      else c\<lparr>ch := Close ops (ch c),
             pending := (\<lambda>i. map_option cancel (pending c i)),
             err := Some e,
             ch_nil := True\<rparr>)"

text \<open>
  \<open>accept\<close>, one turn of the reader. \<open>unmarshal\<close> is \<open>json.Unmarshal\<close> into
  \<open>jresponses\<close>, declared outside src/. It returns the error it stops with, if any,
  and what became of each response.
\<close>

fun deliver_all ::
  "(string \<Rightarrow> string) \<Rightarrow> ('x, 'ch) Client \<Rightarrow> jresponse list \<Rightarrow>
     'x delivery list \<times> ('x, 'ch) Client" where
  "deliver_all fixID c [] = ([], c)"
| "deliver_all fixID c (rsp # rsps) =
     (let (d, c') = deliver fixID c rsp;
          (ds, c'') = deliver_all fixID c' rsps
      in (d # ds, c''))"

definition accept ::
  "'ch Channel \<Rightarrow> (string \<Rightarrow> error + jresponse list) \<Rightarrow> (string \<Rightarrow> string) \<Rightarrow>
     ('x, 'ch) Client \<Rightarrow> (error option \<times> 'x delivery list) \<times> ('x, 'ch) Client" where
  "accept ops unmarshal fixID c =
     (case Recv ops (ch c) of
        (got, ch') \<Rightarrow>
          (case (case got of Inl e \<Rightarrow> Inl e | Inr bits \<Rightarrow> unmarshal bits) of
             Inl e \<Rightarrow> ((Some e, []), stop ops (c\<lparr>ch := ch'\<rparr>) e)
           | Inr rsps \<Rightarrow>
               (let (ds, c') = deliver_all fixID (c\<lparr>ch := ch'\<rparr>) rsps in ((None, ds), c'))))"

definition Client_Notify ::
  "'ch Channel \<Rightarrow> (jrequest list \<Rightarrow> string + string) \<Rightarrow> ('x, 'ch) Client \<Rightarrow> 'x ctx \<Rightarrow>
     string \<Rightarrow> go_value option \<Rightarrow> unit result \<times> ('x, 'ch) Client" where
  "Client_Notify ops marshal c cx method params =
     (case note_request c cx method params of
        Inl e \<Rightarrow> (Fails e, c)
      | Inr r \<Rightarrow>
          (case send ops marshal c cx [r] of
             (Panics p, c') \<Rightarrow> (Panics p, c')
           | (Fails e, c') \<Rightarrow> (Fails e, c')
           | (Returns _, c') \<Rightarrow> (Returns (), c')))"

text \<open>
  \<open>waitComplete\<close> for the pending response \<open>p\<close>, once \<open>pctx.Done()\<close> is closed: with a
  context that is not done it stays blocked (\<open>None\<close>). Otherwise it returns \<open>p\<close> with the
  message put into its channel, if the ID was still pending, and the client after
  the \<open>rpc.cancel\<close> notification of \<open>cleanup\<close>, sent on a background context with its
  outcome ignored.
\<close>

definition waitComplete ::
  "'ch Channel \<Rightarrow> (jrequest list \<Rightarrow> string + string) \<Rightarrow> ('x, 'ch) Client \<Rightarrow>
     string \<Rightarrow> 'x Response \<Rightarrow> ('x Response option \<times> ('x, 'ch) Client) option" where
  "waitComplete ops marshal c i p =
     (case Err (rsp_ctx p) of
        None \<Rightarrow> None
      | Some e \<Rightarrow>
          (if pending c i = None then Some (None, c)
           else
             (let c' = c\<lparr>pending := (pending c)(i := None)\<rparr>;
                  p' = p\<lparr>rsp_ch := Some \<lparr>rV = [], rID = i,
                          rE = Some (jerrorf (FromError e) (ctx_error_text e) []),
                          rR = [], rM = [], rP = []\<rparr>\<rparr>
              in Some (Some p',
                   (if allowC c
                    then snd (Client_Notify ops marshal c' Background ''rpc.cancel''
                                (Some (RawMessages [i])))
                    else c')))))"

text \<open>
  \<open>Call\<close>. \<open>rsp[0].wait()\<close> blocks until a message is in the channel of the response, and
  \<open>rsp[0].Error()\<close> reads the error of that message; both are declared outside src/.
  \<open>completed\<close> stands for the two: the response as it is once complete, and its error.
\<close>

definition Call ::
  "'ch Channel \<Rightarrow> (jrequest list \<Rightarrow> string + string) \<Rightarrow>
   ('x Response \<Rightarrow> 'x Response \<times> Error option) \<Rightarrow>
   ('x, 'ch) Client \<Rightarrow> 'x ctx \<Rightarrow> string \<Rightarrow> go_value option \<Rightarrow>
     'x Response result \<times> ('x, 'ch) Client" where
  "Call ops marshal completed c cx method params =
     (case req c cx method params of
        (Inl e, c') \<Rightarrow> (Fails e, c')
      | (Inr r, c') \<Rightarrow>
          (case send ops marshal c' cx [r] of
             (Panics p, c'') \<Rightarrow> (Panics p, c'')
           | (Fails e, c'') \<Rightarrow> (Fails e, c'')
           | (Returns rsp, c'') \<Rightarrow>
               (case rsp of
                  [] \<Rightarrow> (Panics IndexOutOfRange, c'')
                | rsp0 # _ \<Rightarrow>
                    (case completed rsp0 of
                       (done, Some e) \<Rightarrow>
                         (if Code e = Cancelled then (Fails ContextCanceled, c'')
                          else if Code e = DeadlineExceeded then (Fails ContextDeadlineExceeded, c'')
                          else (Fails (RPCError e), c''))
                     | (done, None) \<Rightarrow> (Returns done, c'')))))"

record Spec =
  Method :: string
  Params :: "go_value option"
  Notify :: bool

text \<open>The first loop of \<open>Batch\<close>: a request or a notification for every spec.\<close>

fun Batch_requests ::
  "('x, 'ch) Client \<Rightarrow> 'x ctx \<Rightarrow> Spec list \<Rightarrow> (error + jrequest list) \<times> ('x, 'ch) Client" where
  "Batch_requests c cx [] = (Inr [], c)"
| "Batch_requests c cx (spec # specs) =
     (case (if Notify spec then (note_request c cx (Method spec) (Params spec), c)
            else req c cx (Method spec) (Params spec)) of
        (Inl e, c') \<Rightarrow> (Inl e, c')
      | (Inr r, c') \<Rightarrow>
          (case Batch_requests c' cx specs of
             (Inl e, c'') \<Rightarrow> (Inl e, c'')
           | (Inr rs, c'') \<Rightarrow> (Inr (r # rs), c'')))"

definition Batch ::
  "'ch Channel \<Rightarrow> (jrequest list \<Rightarrow> string + string) \<Rightarrow>
   ('x Response \<Rightarrow> 'x Response \<times> Error option) \<Rightarrow>
   ('x, 'ch) Client \<Rightarrow> 'x ctx \<Rightarrow> Spec list \<Rightarrow>
     'x Response list result \<times> ('x, 'ch) Client" where
  "Batch ops marshal completed c cx specs =
     (case Batch_requests c cx specs of
        (Inl e, c') \<Rightarrow> (Fails e, c')
      | (Inr reqs, c') \<Rightarrow>
          (case send ops marshal c' cx reqs of
             (Panics p, c'') \<Rightarrow> (Panics p, c'')
           | (Fails e, c'') \<Rightarrow> (Fails e, c'')
           | (Returns rsps, c'') \<Rightarrow> (Returns (map (\<lambda>rsp. fst (completed rsp)) rsps), c'')))"


text \<open>
  The client after \<open>n\<close> calls of \<open>req\<close>, one after the other, with the same arguments.
\<close>

primrec req_n ::
  "nat \<Rightarrow> ('x, 'ch) Client \<Rightarrow> 'x ctx \<Rightarrow> string \<Rightarrow> go_value option \<Rightarrow> ('x, 'ch) Client" where
  "req_n 0 c cx method params = c"
| "req_n (Suc n) c cx method params = snd (req (req_n n c cx method params) cx method params)"

text \<open>
  The forms of params the send path lets through: an array, an object or \<open>null\<close>.
\<close>

definition array_object_or_null :: "json \<Rightarrow> bool" where
  "array_object_or_null j =
     (case j of JArr _ \<Rightarrow> True | JObj _ \<Rightarrow> True | JNull \<Rightarrow> True | _ \<Rightarrow> False)"

text \<open>
  Whether a JSON value is an object.
\<close>

definition is_object :: "json \<Rightarrow> bool" where
  "is_object j = (case j of JObj _ \<Rightarrow> True | _ \<Rightarrow> False)"


section \<open>Example inputs\<close>

text \<open>Concrete inputs on which the theorems below are run.\<close>

definition ex_math :: "(unit, nat) Assigner" where
  "ex_math cx name =
     Inr (if name = ''Add'' then Some 1 else if name = ''v2.Add'' then Some 2 else None)"

definition ex_services :: "(unit, nat) ServiceMap" where
  "ex_services = [''math'' \<mapsto> Some ex_math, ''math.v2'' \<mapsto> Some ex_math, ''off'' \<mapsto> None]"

definition ex_unmarshal :: "go_type \<Rightarrow> Request \<Rightarrow> string + (unit, nat) val" where
  "ex_unmarshal t r = Inl ''unused''"

definition ex_fn :: "(unit, nat) val list \<Rightarrow> (unit, nat) val list" where
  "ex_fn args = [VOther 42, VError None]"

definition ex_type :: func_type where
  "ex_type = \<lparr>ins = [ctxType], outs = [Named ''int'', errType], variadic = False\<rparr>"

definition ex_decode_nat :: "json \<Rightarrow> string + nat" where
  "ex_decode_nat j =
     (case j of
        JNum (Number False n [] None) \<Rightarrow> Inr n
      | _ \<Rightarrow> Inl ''json: cannot unmarshal into Go value of type uint'')"

definition ex_dest :: "nat target" where
  "ex_dest = \<lparr>decode = ex_decode_nat, held = 0\<rparr>"

definition ex_args :: "nat Args" where
  "ex_args = [Some ex_dest, None]"

definition ex_enc :: "nat \<Rightarrow> string + json" where
  "ex_enc n = (if n = 13 then Inl ''json: unsupported value'' else Inr (JNum (Number False n [] None)))"

definition ex_obj :: "nat Obj" where
  "ex_obj = [''x'' \<mapsto> Some ex_dest]"

text \<open>
  A channel that keeps the frames sent and whether it is closed; sending on it fails
  once it is closed. The default options. An encoder for batches that rejects a
  request whose params are cut short.
\<close>

definition ex_ops :: "(string list \<times> bool) Channel" where
  "ex_ops =
     \<lparr>Send = (\<lambda>s b. if snd s then (Some (ErrorsNew ''send on closed channel''), s)
                       else (None, (fst s @ [b], snd s))),
      Recv = (\<lambda>s. (Inl EOF, s)),
      Close = (\<lambda>s. (fst s, True))\<rparr>"

definition ex_options :: "unit ClientOptions" where
  "ex_options =
     \<lparr>allowV1 = False, allowCancel = False,
      encodeContext = (\<lambda>cx m p. Inr p), handleNotification = (\<lambda>rsp. False)\<rparr>"

definition ex_client :: "(unit, string list \<times> bool) Client" where
  "ex_client = NewClient ([], False) ex_options"

definition ex_marshal :: "jrequest list \<Rightarrow> string + string" where
  "ex_marshal reqs =
     (if \<exists>r \<in> set reqs. P r = ''{'' then Inl ''json: unexpected end of JSON input''
      else Inr (CHR ''['' # commas (map (\<lambda>r. M r @ CHR '':'' # ID r) reqs) @ '']''))"

text \<open>
  The first request of a client, the same request with params cut short, the client
  once the first request is sent and pending, and a test for the errors of a closing
  channel.
\<close>

definition ex_req1 :: jrequest where
  "ex_req1 = \<lparr>V = Version, ID = ''1'', M = ''m'', P = []\<rparr>"

definition ex_bad :: jrequest where
  "ex_bad = \<lparr>V = Version, ID = ''1'', M = ''m'', P = ''{''\<rparr>"

definition ex_busy :: "(unit, string list \<times> bool) Client" where
  "ex_busy =
     ex_client\<lparr>ch := ([''[m:1]''], False),
               pending := [''1'' \<mapsto> newPending Background ''1''],
               nextID := 2\<rparr>"


section \<open>Properties of the metrics collector\<close>

text \<open>
  C10. Every method of the collector, called on the nil collector, returns without a
  panic and leaves the nil collector; \<open>EditLabel\<close> does not call \<open>edit\<close>, and \<open>Snapshot\<close>
  leaves the snapshot as it was.
\<close>

theorem nil_collector:
  "Count None name n = Inr (None :: 'a M option) \<and>
   SetMaxValue None name n = Inr (None :: 'a M option) \<and>
   CountAndSetMax None name n = Inr (None :: 'a M option) \<and>
   SetLabel None name v = Inr (None :: 'a M option) \<and>
   EditLabel None name edit = (Inr (None :: 'a M option), []) \<and>
   Snapshot (None :: 'a M option) snap = snap"
  by (simp add: Count_def SetMaxValue_def CountAndSetMax_def SetLabel_def EditLabel_def Snapshot_def)

section \<open>Properties of ServiceMap\<close>

lemma cut_first_None: "cut_first sep s = None \<longleftrightarrow> sep \<notin> set s"
  by (induction s) (auto split: option.splits)

lemma cut_first_Some:
  "sep \<in> set s \<Longrightarrow>
     cut_first sep s = Some (takeWhile (\<lambda>c. c \<noteq> sep) s, tl (dropWhile (\<lambda>c. c \<noteq> sep) s))"
  by (induction s) (auto split: option.splits simp: cut_first_None)

lemma cut_first_append:
  "sep \<notin> set a \<Longrightarrow> cut_first sep (a @ sep # b) = Some (a, b)"
  by (induction a) auto

lemma first_dot_split:
  "CHR ''.'' \<in> set s \<Longrightarrow> s = service_part s @ ''.'' @ method_part s \<and> CHR ''.'' \<notin> set (service_part s)"
  unfolding service_part_def method_part_def
  by (induction s) auto

text \<open>
  C9. A method name without a dot gets the nil handler. A name with a dot is the
  service (the text before the first dot), a dot, and the method (all the text after
  it); the lookup is what the assigner registered under exactly that service returns
  for the method, and the nil handler when no assigner is registered under it. One dot
  is consumed at each level: under a nested \<open>ServiceMap\<close> the rest of the name is looked
  up as it stands.
\<close>

theorem ServiceMap_Assign_lookup:
  "(CHR ''.'' \<notin> set s \<longrightarrow> ServiceMap_Assign m ctx s = Inr None) \<and>
   (CHR ''.'' \<in> set s \<longrightarrow>
      s = service_part s @ ''.'' @ method_part s \<and> CHR ''.'' \<notin> set (service_part s) \<and>
      ServiceMap_Assign m ctx s =
        (case m (service_part s) of
           None \<Rightarrow> Inr None
         | Some None \<Rightarrow> Inl NilDereference
         | Some (Some a) \<Rightarrow> a ctx (method_part s))) \<and>
   (CHR ''.'' \<notin> set svc \<longrightarrow>
      ServiceMap_Assign (m(svc \<mapsto> Some (ServiceMap_Assign inner))) ctx (svc @ ''.'' @ rest) =
        ServiceMap_Assign inner ctx rest)"
proof (intro conjI impI)
  assume "CHR ''.'' \<notin> set s"
  then show "ServiceMap_Assign m ctx s = Inr None"
    by (simp add: ServiceMap_Assign_def SplitN2_def cut_first_None[THEN iffD2])
next
  assume d: "CHR ''.'' \<in> set s"
  from first_dot_split[OF d] show "s = service_part s @ ''.'' @ method_part s" by simp
  from first_dot_split[OF d] show "CHR ''.'' \<notin> set (service_part s)" by simp
  show "ServiceMap_Assign m ctx s =
        (case m (service_part s) of
           None \<Rightarrow> Inr None
         | Some None \<Rightarrow> Inl NilDereference
         | Some (Some a) \<Rightarrow> a ctx (method_part s))"
    using cut_first_Some[OF d]
    by (simp add: ServiceMap_Assign_def SplitN2_def service_part_def method_part_def split: option.splits)
next
  assume "CHR ''.'' \<notin> set svc"
  then show "ServiceMap_Assign (m(svc \<mapsto> Some (ServiceMap_Assign inner))) ctx (svc @ ''.'' @ rest) =
        ServiceMap_Assign inner ctx rest"
    using cut_first_append[of "CHR ''.''" svc rest]
    by (simp add: ServiceMap_Assign_def[of "m(svc \<mapsto> Some (ServiceMap_Assign inner))"] SplitN2_def)
qed

theorem ServiceMap_Assign_lookup_witness:
  "CHR ''.'' \<notin> set ''Add'' \<and>
   ServiceMap_Assign ex_services () ''Add'' = Inr None \<and>
   CHR ''.'' \<in> set ''math.v2.Add'' \<and>
   ServiceMap_Assign ex_services () ''math.v2.Add'' = Inr (Some 2) \<and>
   ServiceMap_Assign ex_services () ''off.x'' = Inl NilDereference \<and>
   ServiceMap_Assign ex_services () ''mat.Add'' = Inr None \<and>
   CHR ''.'' \<notin> set ''outer'' \<and>
   ServiceMap_Assign (ex_services(''outer'' \<mapsto> Some (ServiceMap_Assign ex_services))) ()
       (''outer'' @ ''.'' @ ''math.Add'') = Inr (Some 1)"
  using ServiceMap_Assign_lookup[of "''Add''" ex_services "()"]
    ServiceMap_Assign_lookup[of "''math.v2.Add''" ex_services "()"]
    ServiceMap_Assign_lookup[of "''off.x''" ex_services "()"]
    ServiceMap_Assign_lookup[of "''mat.Add''" ex_services "()"]
    ServiceMap_Assign_lookup[of "''math.Add''" ex_services "()" "''outer''" ex_services "''math.Add''"]
  by (simp add: service_part_def method_part_def ex_services_def ex_math_def)

section \<open>Properties of the handler adapter\<close>

lemma no_params_input:
  "Argument info = None \<Longrightarrow>
   newinput U info rq =
     (if HasParams rq then Inl (RPCError \<lparr>Message = ''no parameters accepted'', Code = InvalidParams, Data = []\<rparr>)
      else Inr [])"
  by (simp add: newinput_def RPCErrorf_def)

lemma checked_context_only:
  "checkFunctionType ft = Inr info \<Longrightarrow> length (ins ft) = 1 \<Longrightarrow>
     Argument info = None \<and> ins ft = [ctxType] \<and> Type info = ft"
  by (cases "ins ft") (auto simp: checkFunctionType_def Let_def split: if_splits)

text \<open>
  C6. A handler built from a function whose only parameter is the context answers a
  request that carries params with the InvalidParams error "no parameters accepted"
  and does not call the function; on a request without params it calls the function
  once, with the context alone, and replies with what \<open>decodeOut\<close> makes of its results.
\<close>

theorem newHandler_context_only:
  assumes built: "newHandler U (ReflectFn ft f) = Inr h"
    and only_ctx: "length (ins ft) = 1"
  shows "(HasParams rq \<longrightarrow>
            h cx rq = \<lparr>calls = [],
                        reply = Inr (None, Some (RPCError \<lparr>Message = ''no parameters accepted'',
                                                           Code = InvalidParams, Data = []\<rparr>))\<rparr>) \<and>
         (\<not> HasParams rq \<longrightarrow>
            calls (h cx rq) = [[VContext cx]] \<and>
            (\<exists>info. checkFunctionType ft = Inr info \<and>
                    reply (h cx rq) = decodeOut info (f [VContext cx])))"
proof -
  from built obtain info where chk: "checkFunctionType ft = Inr info"
    and h: "h = (\<lambda>ctx rq.
                 (case newinput U info rq of
                    Inl ierr \<Rightarrow> \<lparr>calls = [], reply = Inr (None, Some ierr)\<rparr>
                  | Inr rest \<Rightarrow>
                      (let args = [(ctxType, VContext ctx)] @ rest in
                       case call ft f args of
                         Inl p \<Rightarrow> \<lparr>calls = [], reply = Inl p\<rparr>
                       | Inr vals \<Rightarrow> \<lparr>calls = [map snd args], reply = decodeOut info vals\<rparr>)))"
    by (auto simp: newHandler_def split: sum.splits)
  from checked_context_only[OF chk only_ctx]
  have arg: "Argument info = None" and ins: "ins ft = [ctxType]" by simp_all
  show ?thesis
    using chk by (simp add: h no_params_input[OF arg] call_def ins)
qed

theorem newHandler_context_only_witness:
  "\<exists>h. newHandler ex_unmarshal (ReflectFn ex_type ex_fn) = Inr h \<and>
       length (ins ex_type) = 1 \<and>
       HasParams \<lparr>req_id = ''1'', req_method = ''Ping'', req_params = ''[1]''\<rparr> \<and>
       h () \<lparr>req_id = ''1'', req_method = ''Ping'', req_params = ''[1]''\<rparr> =
         \<lparr>calls = [],
          reply = Inr (None, Some (RPCError \<lparr>Message = ''no parameters accepted'',
                                             Code = InvalidParams, Data = []\<rparr>))\<rparr> \<and>
       \<not> HasParams \<lparr>req_id = ''2'', req_method = ''Ping'', req_params = []\<rparr> \<and>
       calls (h () \<lparr>req_id = ''2'', req_method = ''Ping'', req_params = []\<rparr>) = [[VContext ()]] \<and>
       reply (h () \<lparr>req_id = ''2'', req_method = ''Ping'', req_params = []\<rparr>) =
         Inr (Some (VOther 42), None)"
proof -
  obtain h where h: "newHandler ex_unmarshal (ReflectFn ex_type ex_fn) = Inr h"
    by (simp add: newHandler_def checkFunctionType_def ex_type_def)
  have len: "length (ins ex_type) = 1" by (simp add: ex_type_def)
  have info: "checkFunctionType ex_type =
     Inr \<lparr>Type = ex_type, Argument = None, IsVariadic = False,
          Result = Some (Named ''int''), ReportsError = True\<rparr>"
    by (simp add: checkFunctionType_def ex_type_def)
  show ?thesis
    using newHandler_context_only[OF h len, of "\<lparr>req_id = ''1'', req_method = ''Ping'', req_params = ''[1]''\<rparr>" "()"]
      newHandler_context_only[OF h len, of "\<lparr>req_id = ''2'', req_method = ''Ping'', req_params = []\<rparr>" "()"]
      h len
    by (auto simp: HasParams_def info decodeOut_def ex_fn_def Interface_def)
qed

section \<open>Properties of Args and Obj\<close>

lemma Args_loop_fits:
  "list_all2 (\<lambda>d elt. case d of None \<Rightarrow> True | Some dst \<Rightarrow> \<exists>v. decode dst elt = Inr v) a elts \<Longrightarrow>
   Args_loop i elts a =
     Inr (None, map2 (\<lambda>d elt. case d of None \<Rightarrow> None
                         | Some dst \<Rightarrow> (case decode dst elt of Inl _ \<Rightarrow> d | Inr v \<Rightarrow> Some (dst\<lparr>held := v\<rparr>)))
              a elts)"
proof (induction a elts arbitrary: i rule: list_all2_induct)
  case Nil
  then show ?case by simp
next
  case (Cons d a elt elts)
  then show ?case
    by (cases d) (auto simp: Unmarshal_into_def)
qed

lemma Args_loop_None:
  "Args_loop i elts a = Inr (None, a') \<Longrightarrow> length elts = length a \<Longrightarrow>
   list_all2 (\<lambda>d elt. case d of None \<Rightarrow> True | Some dst \<Rightarrow> \<exists>v. decode dst elt = Inr v) a elts"
proof (induction i elts a arbitrary: a' rule: Args_loop.induct)
  case (3 i elt elts d a)
  then show ?case
    by (cases d) (auto simp: Unmarshal_into_def split: sum.splits prod.splits)
qed simp_all

lemma Args_loop_returns:
  "length elts = length a \<Longrightarrow> \<exists>e a'. Args_loop i elts a = Inr (e, a')"
proof (induction elts a arbitrary: i rule: list_induct2)
  case Nil
  then show ?case by simp
next
  case (Cons elt elts d a)
  from Cons.IH[of "i + 1"] obtain e a' where "Args_loop (i + 1) elts a = Inr (e, a')" by blast
  then show ?case
    by (cases d) (auto simp: Unmarshal_into_def split: sum.splits)
qed

lemma Args_loop_no_panic:
  "length elts = length a \<Longrightarrow> Args_loop i elts a \<noteq> Inl p"
  using Args_loop_returns[of elts a i] by auto

lemma Marshal_elements_length:
  "Marshal_elements enc a = Inr js \<Longrightarrow> length js = length a"
  by (induction a arbitrary: js) (auto split: sum.splits option.splits)

lemma Marshal_elements_ok:
  "(\<exists>js. Marshal_elements enc a = Inr js) \<longleftrightarrow>
   (\<forall>d \<in> set a. case d of None \<Rightarrow> True | Some dst \<Rightarrow> \<exists>j. enc (held dst) = Inr j)"
  by (induction a) (auto split: sum.splits option.splits)

text \<open>
  C7, as amended. Unmarshaling into an \<open>Args\<close> of length L succeeds exactly when the JSON
  is an array of L elements each of which unmarshals into its destination, a nil
  destination discarding its element, or when L is 0 and the JSON is \<open>null\<close>. On success
  every destination holds its element's value. An array of another length is the
  error "wrong number of args". Nothing panics. Marshaling an empty \<open>Args\<close> gives the
  literal \<open>[]\<close>; marshaling succeeds exactly when every element is marshalable, and then
  gives a JSON array of length L.
\<close>

theorem Args_JSON:
  "((\<exists>a'. Args_UnmarshalJSON a data = Inr (None, a')) \<longleftrightarrow>
      (\<exists>elts. (data = Parsed (JArr elts) \<or> data = Parsed JNull \<and> elts = []) \<and>
              list_all2 (\<lambda>d elt. case d of None \<Rightarrow> True | Some dst \<Rightarrow> \<exists>v. decode dst elt = Inr v) a elts)) \<and>
   (list_all2 (\<lambda>d elt. case d of None \<Rightarrow> True | Some dst \<Rightarrow> \<exists>v. decode dst elt = Inr v) a elts \<longrightarrow>
      Args_UnmarshalJSON a (Parsed (JArr elts)) =
        Inr (None, map2 (\<lambda>d elt. case d of None \<Rightarrow> None
                           | Some dst \<Rightarrow> (case decode dst elt of Inl _ \<Rightarrow> d | Inr v \<Rightarrow> Some (dst\<lparr>held := v\<rparr>)))
                     a elts)) \<and>
   (length elts \<noteq> length a \<longrightarrow>
      Args_UnmarshalJSON a (Parsed (JArr elts)) =
        Inr (Some (Errorf ''wrong number of args (got %d, want %d)''
                     [FormatInt (int (length elts)), FormatInt (int (length a))]), a)) \<and>
   Args_UnmarshalJSON a data \<noteq> Inl p \<and>
   Args_MarshalJSON enc [] = Inr ''[]'' \<and>
   (Args_MarshalJSON enc a = Inr text \<longrightarrow>
      (\<exists>js. length js = length a \<and> text = encode (JArr js))) \<and>
   ((\<exists>text. Args_MarshalJSON enc a = Inr text) \<longleftrightarrow>
      (\<forall>d \<in> set a. case d of None \<Rightarrow> True | Some dst \<Rightarrow> \<exists>j. enc (held dst) = Inr j))"
proof (intro conjI impI)
  let ?fits = "\<lambda>d elt. case d of None \<Rightarrow> True | Some dst \<Rightarrow> \<exists>v. decode dst elt = Inr v"
  show "(\<exists>a'. Args_UnmarshalJSON a data = Inr (None, a')) \<longleftrightarrow>
      (\<exists>elts. (data = Parsed (JArr elts) \<or> data = Parsed JNull \<and> elts = []) \<and> list_all2 ?fits a elts)"
  proof
    assume "\<exists>a'. Args_UnmarshalJSON a data = Inr (None, a')"
    then obtain a' where ok: "Args_UnmarshalJSON a data = Inr (None, a')" ..
    then obtain elts where raw: "Unmarshal_raw_list data = Inr elts"
      and len: "length elts = length a" and loop: "Args_loop 0 elts a = Inr (None, a')"
      by (auto simp: Args_UnmarshalJSON_def split: sum.splits if_splits)
    from raw have "data = Parsed (JArr elts) \<or> data = Parsed JNull \<and> elts = []"
      by (auto simp: Unmarshal_raw_list_def split: json_text.splits json.splits)
    with Args_loop_None[OF loop len] show "\<exists>elts. (data = Parsed (JArr elts) \<or> data = Parsed JNull \<and> elts = []) \<and> list_all2 ?fits a elts"
      by blast
  next
    assume "\<exists>elts. (data = Parsed (JArr elts) \<or> data = Parsed JNull \<and> elts = []) \<and> list_all2 ?fits a elts"
    then obtain elts where d: "data = Parsed (JArr elts) \<or> data = Parsed JNull \<and> elts = []"
      and fits: "list_all2 ?fits a elts" by blast
    from d have raw: "Unmarshal_raw_list data = Inr elts"
      by (auto simp: Unmarshal_raw_list_def)
    from fits have len: "length elts = length a" by (simp add: list_all2_lengthD)
    show "\<exists>a'. Args_UnmarshalJSON a data = Inr (None, a')"
      by (simp add: Args_UnmarshalJSON_def raw len Args_loop_fits[OF fits])
  qed
next
  assume fits: "list_all2 (\<lambda>d elt. case d of None \<Rightarrow> True | Some dst \<Rightarrow> \<exists>v. decode dst elt = Inr v) a elts"
  from fits have len: "length elts = length a" by (simp add: list_all2_lengthD)
  show "Args_UnmarshalJSON a (Parsed (JArr elts)) =
        Inr (None, map2 (\<lambda>d elt. case d of None \<Rightarrow> None
                           | Some dst \<Rightarrow> (case decode dst elt of Inl _ \<Rightarrow> d | Inr v \<Rightarrow> Some (dst\<lparr>held := v\<rparr>)))
                     a elts)"
    by (simp add: Args_UnmarshalJSON_def Unmarshal_raw_list_def len Args_loop_fits[OF fits])
next
  assume "length elts \<noteq> length a"
  then show "Args_UnmarshalJSON a (Parsed (JArr elts)) =
        Inr (Some (Errorf ''wrong number of args (got %d, want %d)''
                     [FormatInt (int (length elts)), FormatInt (int (length a))]), a)"
    by (simp add: Args_UnmarshalJSON_def Unmarshal_raw_list_def)
next
  show "Args_UnmarshalJSON a data \<noteq> Inl p"
    by (auto simp: Args_UnmarshalJSON_def Args_loop_no_panic split: sum.splits)
next
  show "Args_MarshalJSON enc [] = Inr ''[]''"
    by (simp add: Args_MarshalJSON_def)
next
  assume m: "Args_MarshalJSON enc a = Inr text"
  show "\<exists>js. length js = length a \<and> text = encode (JArr js)"
  proof (cases "length a = 0")
    case True
    with m show ?thesis by (auto simp: Args_MarshalJSON_def intro: exI[of _ "[]"])
  next
    case False
    with m obtain js where js: "Marshal_elements enc a = Inr js" and t: "text = encode (JArr js)"
      by (auto simp: Args_MarshalJSON_def split: sum.splits)
    from Marshal_elements_length[OF js] t show ?thesis by blast
  qed
next
  show "(\<exists>text. Args_MarshalJSON enc a = Inr text) \<longleftrightarrow>
      (\<forall>d \<in> set a. case d of None \<Rightarrow> True | Some dst \<Rightarrow> \<exists>j. enc (held dst) = Inr j)"
    using Marshal_elements_ok[of enc a]
    by (cases a) (auto simp: Args_MarshalJSON_def split: sum.splits)
qed

theorem Args_JSON_witness:
  "list_all2 (\<lambda>d elt. case d of None \<Rightarrow> True | Some dst \<Rightarrow> \<exists>v. decode dst elt = Inr v)
      ex_args [JNum (Number False 7 [] None), JStr ''skipped''] \<and>
   Args_UnmarshalJSON ex_args (Parsed (JArr [JNum (Number False 7 [] None), JStr ''skipped''])) =
     Inr (None, [Some (ex_dest\<lparr>held := 7\<rparr>), None]) \<and>
   length [JNum (Number False 7 [] None)] \<noteq> length ex_args \<and>
   Args_UnmarshalJSON ex_args (Parsed (JArr [JNum (Number False 7 [] None)])) =
     Inr (Some (Errorf ''wrong number of args (got %d, want %d)'' [''1'', ''2'']), ex_args) \<and>
   Args_MarshalJSON ex_enc ex_args = Inr ''[0,null]'' \<and>
   (\<exists>js. length js = length ex_args \<and> ''[0,null]'' = encode (JArr js))"
proof -
  have fits: "list_all2 (\<lambda>d elt. case d of None \<Rightarrow> True | Some dst \<Rightarrow> \<exists>v. decode dst elt = Inr v)
      ex_args [JNum (Number False 7 [] None), JStr ''skipped'']"
    by (simp add: ex_args_def ex_dest_def ex_decode_nat_def)
  have len: "length [JNum (Number False 7 [] None)] \<noteq> length ex_args"
    by (simp add: ex_args_def)
  have m: "Args_MarshalJSON ex_enc ex_args = Inr ''[0,null]''"
    by (simp add: Args_MarshalJSON_def ex_args_def ex_dest_def ex_enc_def number_text_def digit_def nat_dec.simps)
  note inst = Args_JSON[of ex_args _ _ _ ex_enc "''[0,null]''"]
  from inst[of "Parsed JNull" "[JNum (Number False 7 [] None), JStr ''skipped'']"] fits
  have a: "Args_UnmarshalJSON ex_args (Parsed (JArr [JNum (Number False 7 [] None), JStr ''skipped''])) =
     Inr (None, [Some (ex_dest\<lparr>held := 7\<rparr>), None])"
    by (simp add: ex_args_def ex_dest_def ex_decode_nat_def)
  from inst[of "Parsed JNull" "[JNum (Number False 7 [] None)]"] len
  have b: "Args_UnmarshalJSON ex_args (Parsed (JArr [JNum (Number False 7 [] None)])) =
     Inr (Some (Errorf ''wrong number of args (got %d, want %d)'' [''1'', ''2'']), ex_args)"
    by (simp add: ex_args_def FormatInt_def digit_def nat_dec.simps)
  from inst[of "Parsed JNull" "[]"] m
  have c: "\<exists>js. length js = length ex_args \<and> ''[0,null]'' = encode (JArr js)"
    by blast
  from fits a len b m c show ?thesis by blast
qed

text \<open>
  The claim as first stated fails: \<open>null\<close>, which is not an array, unmarshals into the
  empty \<open>Args\<close>; and an \<open>Args\<close> of length 1 whose element is not marshalable marshals to
  an error, not to an array.
\<close>

theorem Args_JSON_counterexample:
  "Args_UnmarshalJSON ([] :: nat Args) (Parsed JNull) = Inr (None, []) \<and>
   Parsed JNull \<noteq> Parsed (JArr []) \<and>
   length [Some (ex_dest\<lparr>held := 13\<rparr>)] = 1 \<and>
   Args_MarshalJSON ex_enc [Some (ex_dest\<lparr>held := 13\<rparr>)] = Inl (ErrorsNew ''json: unsupported value'')"
  by (simp add: Args_UnmarshalJSON_def Unmarshal_raw_list_def Args_MarshalJSON_def ex_enc_def ex_dest_def)

lemma dom_map_of_rev: "k \<in> dom (map_of (rev kvs)) \<longleftrightarrow> k \<in> fst ` set kvs"
  by (simp add: dom_map_of_conv_image_fst)

lemma raw_entries_member:
  "(k, v) \<in> set (raw_entries kvs) \<longleftrightarrow> member_value kvs k = Some v"
proof (induction kvs arbitrary: k v)
  case Nil
  then show ?case by (simp add: member_value_def)
next
  case (Cons kv kvs)
  obtain k0 v0 where kv: "kv = (k0, v0)" by (cases kv)
  have step: "member_value (kv # kvs) k =
      (case member_value kvs k of None \<Rightarrow> (if k = k0 then Some v0 else None) | Some w \<Rightarrow> Some w)"
    by (simp add: member_value_def kv map_add_def split: option.splits)
  show ?case
  proof (cases "k0 \<in> fst ` set kvs")
    case True
    then have "k0 \<in> dom (member_value kvs)" by (simp add: member_value_def dom_map_of_rev)
    then obtain w where w: "member_value kvs k0 = Some w" by blast
    from True have "(k, v) \<in> set (raw_entries (kv # kvs)) \<longleftrightarrow> (k, v) \<in> set (raw_entries kvs)"
      by (simp add: kv)
    also have "\<dots> \<longleftrightarrow> member_value kvs k = Some v" by (rule Cons.IH)
    also have "\<dots> \<longleftrightarrow> member_value (kv # kvs) k = Some v"
      using w by (auto simp: step split: option.splits)
    finally show ?thesis .
  next
    case False
    then have "k0 \<notin> dom (member_value kvs)" by (simp add: member_value_def dom_map_of_rev)
    then have n: "member_value kvs k0 = None" by blast
    from False have "(k, v) \<in> set (raw_entries (kv # kvs)) \<longleftrightarrow>
        (k, v) = (k0, v0) \<or> (k, v) \<in> set (raw_entries kvs)"
      by (simp add: kv)
    also have "\<dots> \<longleftrightarrow> (k, v) = (k0, v0) \<or> member_value kvs k = Some v"
      by (simp only: Cons.IH)
    also have "\<dots> \<longleftrightarrow> member_value (kv # kvs) k = Some v"
      using n by (auto simp: step split: option.splits)
    finally show ?thesis .
  qed
qed

lemma Obj_loop_success:
  "(\<exists>ob'. Obj_loop base ob = (None, ob')) \<longleftrightarrow>
   (\<forall>(k, v) \<in> set base. \<forall>arg. ob k = Some arg \<longrightarrow>
      (\<exists>dst w. arg = Some dst \<and> decode dst v = Inr w))"
proof (induction base ob rule: Obj_loop.induct)
  case (1 ob)
  then show ?case by simp
next
  case (2 key val base ob)
  show ?case
  proof (cases "ob key")
    case None
    with 2 show ?thesis by simp
  next
    case (Some arg)
    show ?thesis
    proof (cases arg)
      case None
      with Some show ?thesis by auto
    next
      case (Some dst)
      note arg = \<open>ob key = Some arg\<close> Some
      show ?thesis
      proof (cases "decode dst val")
        case (Inl msg)
        with arg show ?thesis by (auto simp: Unmarshal_into_def)
      next
        case (Inr w)
        let ?ob' = "ob(key \<mapsto> Some (dst\<lparr>held := w\<rparr>))"
        have eq1: "Obj_loop ((key, val) # base) ob = Obj_loop base ?ob'"
          using arg Inr by (simp add: Unmarshal_into_def)
        have um: "(case arg of None \<Rightarrow> Inl ''json: Unmarshal(nil)''
                   | Some dst \<Rightarrow> Unmarshal_into val dst) = Inr (dst\<lparr>held := w\<rparr>)"
          using arg Inr by (simp add: Unmarshal_into_def)
        have ih: "(\<exists>ob'. Obj_loop base ?ob' = (None, ob')) \<longleftrightarrow>
           (\<forall>(k, v) \<in> set base. \<forall>arg. ?ob' k = Some arg \<longrightarrow>
              (\<exists>dst w. arg = Some dst \<and> decode dst v = Inr w))"
          by (rule "2.IH"(2)[OF \<open>ob key = Some arg\<close> um])
        have pointwise: "(\<forall>arg. ?ob' k = Some arg \<longrightarrow> (\<exists>dst w. arg = Some dst \<and> decode dst v = Inr w)) \<longleftrightarrow>
                         (\<forall>arg. ob k = Some arg \<longrightarrow> (\<exists>dst w. arg = Some dst \<and> decode dst v = Inr w))" for k v
          using arg by (cases "k = key") simp_all
        have head: "\<forall>arg. ob key = Some arg \<longrightarrow> (\<exists>dst w. arg = Some dst \<and> decode dst val = Inr w)"
          using arg Inr by simp
        have "(\<exists>ob'. Obj_loop ((key, val) # base) ob = (None, ob')) \<longleftrightarrow>
             (\<forall>(k, v) \<in> set base. \<forall>arg. ob k = Some arg \<longrightarrow>
                (\<exists>dst w. arg = Some dst \<and> decode dst v = Inr w))"
          unfolding eq1 ih pointwise ..
        also have "\<dots> \<longleftrightarrow>
             (\<forall>(k, v) \<in> set ((key, val) # base). \<forall>arg. ob k = Some arg \<longrightarrow>
                (\<exists>dst w. arg = Some dst \<and> decode dst v = Inr w))"
          using head by simp
        finally show ?thesis .
      qed
    qed
  qed
qed

lemma Obj_loop_dom: "Obj_loop base ob = (e, ob') \<Longrightarrow> dom ob' = dom ob"
proof (induction base ob arbitrary: e ob' rule: Obj_loop.induct)
  case (1 ob)
  then show ?case by simp
next
  case (2 key val base ob)
  show ?case
  proof (cases "ob key")
    case None
    with "2.prems" have "Obj_loop base ob = (e, ob')" by simp
    then show ?thesis by (rule "2.IH"(1)[OF None])
  next
    case (Some arg)
    show ?thesis
    proof (cases "case arg of None \<Rightarrow> Inl ''json: Unmarshal(nil)''
                  | Some dst \<Rightarrow> Unmarshal_into val dst")
      case (Inl msg)
      with Some "2.prems" show ?thesis by simp
    next
      case (Inr dst')
      with Some "2.prems" have "Obj_loop base (ob(key \<mapsto> Some dst')) = (e, ob')" by simp
      then have "dom ob' = dom (ob(key \<mapsto> Some dst'))" by (rule "2.IH"(2)[OF Some Inr])
      with Some show ?thesis by auto
    qed
  qed
qed

lemma Obj_loop_untouched:
  "Obj_loop base ob = (e, ob') \<Longrightarrow> k \<notin> fst ` set base \<Longrightarrow> ob' k = ob k"
proof (induction base ob arbitrary: e ob' rule: Obj_loop.induct)
  case (1 ob)
  then show ?case by simp
next
  case (2 key val base ob)
  from "2.prems"(2) have ne: "k \<noteq> key" and rest: "k \<notin> fst ` set base" by auto
  show ?case
  proof (cases "ob key")
    case None
    with "2.prems" have "Obj_loop base ob = (e, ob')" by simp
    then show ?thesis using rest by (rule "2.IH"(1)[OF None])
  next
    case (Some arg)
    show ?thesis
    proof (cases "case arg of None \<Rightarrow> Inl ''json: Unmarshal(nil)''
                  | Some dst \<Rightarrow> Unmarshal_into val dst")
      case (Inl msg)
      with Some "2.prems" show ?thesis by simp
    next
      case (Inr dst')
      with Some "2.prems" have "Obj_loop base (ob(key \<mapsto> Some dst')) = (e, ob')" by simp
      then have "ob' k = (ob(key \<mapsto> Some dst')) k" using rest by (rule "2.IH"(2)[OF Some Inr])
      with ne show ?thesis by simp
    qed
  qed
qed

lemma Obj_loop_stored:
  "Obj_loop base ob = (None, ob') \<Longrightarrow>
   \<forall>k v v'. (k, v) \<in> set base \<and> (k, v') \<in> set base \<longrightarrow> v = v' \<Longrightarrow>
   (k, v) \<in> set base \<Longrightarrow> ob k = Some (Some dst) \<Longrightarrow>
   \<exists>w. decode dst v = Inr w \<and> ob' k = Some (Some (dst\<lparr>held := w\<rparr>))"
proof (induction base ob arbitrary: ob' dst k v rule: Obj_loop.induct)
  case (1 ob)
  then show ?case by simp
next
  case (2 key val base ob)
  from "2.prems"(2) have fn: "\<forall>k v v'. (k, v) \<in> set base \<and> (k, v') \<in> set base \<longrightarrow> v = v'"
    by auto
  show ?case
  proof (cases "ob key")
    case None
    with "2.prems"(1) have run: "Obj_loop base ob = (None, ob')" by simp
    from None "2.prems"(4) have "k \<noteq> key" by auto
    with "2.prems"(3) have "(k, v) \<in> set base" by simp
    from "2.IH"(1)[OF None run fn this "2.prems"(4)] show ?thesis .
  next
    case (Some arg)
    show ?thesis
    proof (cases "case arg of None \<Rightarrow> Inl ''json: Unmarshal(nil)''
                  | Some dst \<Rightarrow> Unmarshal_into val dst")
      case (Inl msg)
      with Some "2.prems"(1) show ?thesis by simp
    next
      case (Inr dst')
      with Some "2.prems"(1) have run: "Obj_loop base (ob(key \<mapsto> Some dst')) = (None, ob')"
        by simp
      from Inr obtain d0 w0 where arg: "arg = Some d0" and dec: "decode d0 val = Inr w0"
        and dst': "dst' = d0\<lparr>held := w0\<rparr>"
        by (auto simp: Unmarshal_into_def split: option.splits sum.splits)
      show ?thesis
      proof (cases "k = key")
        case False
        with "2.prems"(3) have inb: "(k, v) \<in> set base" by simp
        from False "2.prems"(4) have "(ob(key \<mapsto> Some dst')) k = Some (Some dst)" by simp
        from "2.IH"(2)[OF Some Inr run fn inb this] show ?thesis .
      next
        case True
        with Some arg "2.prems"(4) have d: "d0 = dst" by simp
        from True "2.prems"(2,3) have v: "v = val" by auto
        show ?thesis
        proof (cases "key \<in> fst ` set base")
          case False
          from Obj_loop_untouched[OF run False] have "ob' key = Some (Some dst')" by simp
          with True d v dec dst' show ?thesis by simp
        next
          case inb: True
          then obtain v2 where v2: "(key, v2) \<in> set base" by auto
          with "2.prems"(2) have "v2 = val" by auto
          with v2 have kb: "(key, val) \<in> set base" by simp
          have "(ob(key \<mapsto> Some dst')) key = Some (Some dst')" by simp
          from "2.IH"(2)[OF Some Inr run fn kb this]
          obtain w where w: "decode dst' val = Inr w" and o: "ob' key = Some (Some (dst'\<lparr>held := w\<rparr>))"
            by blast
          from w dst' dec have "w = w0" by simp
          with o dst' True d v dec show ?thesis by simp
        qed
      qed
    qed
  qed
qed

lemma raw_entries_functional:
  "\<forall>k v v'. (k, v) \<in> set (raw_entries kvs) \<and> (k, v') \<in> set (raw_entries kvs) \<longrightarrow> v = v'"
  by (auto simp: raw_entries_member)

lemma raw_entries_keys: "k \<in> fst ` set (raw_entries kvs) \<longleftrightarrow> member_value kvs k \<noteq> None"
proof -
  have "k \<in> fst ` set (raw_entries kvs) \<longleftrightarrow> (\<exists>v. (k, v) \<in> set (raw_entries kvs))"
    by force
  then show ?thesis by (simp add: raw_entries_member)
qed

text \<open>
  C8, as amended. Whatever order the runtime visits the entries in, unmarshaling into
  an \<open>Obj\<close> succeeds exactly when the JSON is \<open>null\<close>, or is an object such that for every
  key present in both the object and the \<open>Obj\<close> the value (of the last member with that
  key) unmarshals into the mapped destination. On success every destination whose key
  the object has holds the value decoded from it, and everything else in the \<open>Obj\<close> is
  as it was: \<open>null\<close> changes nothing, a destination whose key the object lacks is
  untouched (also when the call fails elsewhere), and a key of the JSON that the \<open>Obj\<close>
  does not have is ignored, neither added nor an error. JSON that is not an object
  leaves the \<open>Obj\<close> as it was.
\<close>

theorem Obj_UnmarshalJSON_iff:
  assumes order: "\<And>base. set (order base) = set base"
  shows
  "((\<exists>ob'. Obj_UnmarshalJSON order ob data = (None, ob')) \<longleftrightarrow>
      data = Parsed JNull \<or>
      (\<exists>kvs. data = Parsed (JObj kvs) \<and>
         (\<forall>k v arg. member_value kvs k = Some v \<and> ob k = Some arg \<longrightarrow>
            (\<exists>dst w. arg = Some dst \<and> decode dst v = Inr w)))) \<and>
   (Obj_UnmarshalJSON order ob data = (e, ob') \<longrightarrow> dom ob' = dom ob) \<and>
   Obj_UnmarshalJSON order ob (Parsed JNull) = (None, ob) \<and>
   (Obj_UnmarshalJSON order ob (Parsed (JObj kvs)) = (None, ob') \<longrightarrow>
      (\<forall>k. ob' k =
         (case ob k of
            Some (Some dst) \<Rightarrow>
              (case member_value kvs k of
                 Some v \<Rightarrow>
                   (case decode dst v of
                      Inr w \<Rightarrow> Some (Some (dst\<lparr>held := w\<rparr>))
                    | Inl _ \<Rightarrow> ob k)
               | None \<Rightarrow> ob k)
          | _ \<Rightarrow> ob k))) \<and>
   (Obj_UnmarshalJSON order ob (Parsed (JObj kvs)) = (e, ob') \<and> member_value kvs k = None \<longrightarrow>
      ob' k = ob k) \<and>
   ((\<forall>kvs. data \<noteq> Parsed (JObj kvs)) \<longrightarrow> snd (Obj_UnmarshalJSON order ob data) = ob)"
proof (intro conjI)
  have fits_iff: "(\<forall>(k, v) \<in> set (order (raw_entries kvs)). \<forall>arg. ob k = Some arg \<longrightarrow>
      (\<exists>dst w. arg = Some dst \<and> decode dst v = Inr w)) \<longleftrightarrow>
     (\<forall>k v arg. member_value kvs k = Some v \<and> ob k = Some arg \<longrightarrow>
            (\<exists>dst w. arg = Some dst \<and> decode dst v = Inr w))" for kvs
  proof -
    have "(\<forall>(k, v) \<in> set (raw_entries kvs). \<forall>arg. ob k = Some arg \<longrightarrow>
              (\<exists>dst w. arg = Some dst \<and> decode dst v = Inr w)) \<longleftrightarrow>
          (\<forall>k v. (k, v) \<in> set (raw_entries kvs) \<longrightarrow> (\<forall>arg. ob k = Some arg \<longrightarrow>
              (\<exists>dst w. arg = Some dst \<and> decode dst v = Inr w)))"
      by (simp add: Ball_def)
    then show ?thesis
      unfolding order raw_entries_member by blast
  qed
  have empty: "order [] = []"
  proof -
    have "set (order []) = {}" using order[of "[]"] by simp
    then show ?thesis by simp
  qed
  have obj: "Obj_UnmarshalJSON order ob (Parsed (JObj kvs)) = Obj_loop (order (raw_entries kvs)) ob" for kvs
    by (simp add: Obj_UnmarshalJSON_def Unmarshal_raw_map_def)
  show "(\<exists>ob'. Obj_UnmarshalJSON order ob data = (None, ob')) \<longleftrightarrow>
      data = Parsed JNull \<or>
      (\<exists>kvs. data = Parsed (JObj kvs) \<and>
         (\<forall>k v arg. member_value kvs k = Some v \<and> ob k = Some arg \<longrightarrow>
            (\<exists>dst w. arg = Some dst \<and> decode dst v = Inr w)))"
  proof (cases data)
    case (Malformed msg)
    then show ?thesis by (simp add: Obj_UnmarshalJSON_def Unmarshal_raw_map_def)
  next
    case (Parsed j)
    show ?thesis
    proof (cases j)
      case JNull
      with Parsed empty show ?thesis
        by (simp add: Obj_UnmarshalJSON_def Unmarshal_raw_map_def)
    next
      case (JObj kvs)
      with Parsed show ?thesis
        using Obj_loop_success[of "order (raw_entries kvs)" ob] fits_iff[of kvs]
        by (simp add: obj)
    qed (use Parsed in \<open>simp_all add: Obj_UnmarshalJSON_def Unmarshal_raw_map_def\<close>)
  qed
  show "Obj_UnmarshalJSON order ob data = (e, ob') \<longrightarrow> dom ob' = dom ob"
  proof
    assume r: "Obj_UnmarshalJSON order ob data = (e, ob')"
    show "dom ob' = dom ob"
    proof (cases "Unmarshal_raw_map data")
      case (Inl msg)
      with r show ?thesis by (simp add: Obj_UnmarshalJSON_def)
    next
      case (Inr base)
      with r have "Obj_loop (order base) ob = (e, ob')" by (simp add: Obj_UnmarshalJSON_def)
      then show ?thesis by (rule Obj_loop_dom)
    qed
  qed
  show "Obj_UnmarshalJSON order ob (Parsed JNull) = (None, ob)"
    by (simp add: Obj_UnmarshalJSON_def Unmarshal_raw_map_def empty)
  show "Obj_UnmarshalJSON order ob (Parsed (JObj kvs)) = (None, ob') \<longrightarrow>
      (\<forall>k. ob' k =
         (case ob k of
            Some (Some dst) \<Rightarrow>
              (case member_value kvs k of
                 Some v \<Rightarrow>
                   (case decode dst v of
                      Inr w \<Rightarrow> Some (Some (dst\<lparr>held := w\<rparr>))
                    | Inl _ \<Rightarrow> ob k)
               | None \<Rightarrow> ob k)
          | _ \<Rightarrow> ob k))"
  proof (intro impI allI)
    fix k
    assume "Obj_UnmarshalJSON order ob (Parsed (JObj kvs)) = (None, ob')"
    then have run: "Obj_loop (order (raw_entries kvs)) ob = (None, ob')" by (simp add: obj)
    have fn: "\<forall>k v v'. (k, v) \<in> set (order (raw_entries kvs)) \<and>
                (k, v') \<in> set (order (raw_entries kvs)) \<longrightarrow> v = v'"
      unfolding order by (rule raw_entries_functional)
    have keys: "k \<in> fst ` set (order (raw_entries kvs)) \<longleftrightarrow> member_value kvs k \<noteq> None"
      unfolding order by (rule raw_entries_keys)
    have mem: "(k, v) \<in> set (order (raw_entries kvs)) \<longleftrightarrow> member_value kvs k = Some v" for v
      unfolding order by (rule raw_entries_member)
    from Obj_loop_success[of "order (raw_entries kvs)" ob] run
    have ok: "\<forall>(k, v) \<in> set (order (raw_entries kvs)). \<forall>arg. ob k = Some arg \<longrightarrow>
      (\<exists>dst w. arg = Some dst \<and> decode dst v = Inr w)" by blast
    show "ob' k =
         (case ob k of
            Some (Some dst) \<Rightarrow>
              (case member_value kvs k of
                 Some v \<Rightarrow>
                   (case decode dst v of
                      Inr w \<Rightarrow> Some (Some (dst\<lparr>held := w\<rparr>))
                    | Inl _ \<Rightarrow> ob k)
               | None \<Rightarrow> ob k)
          | _ \<Rightarrow> ob k)"
    proof (cases "member_value kvs k")
      case None
      then have "k \<notin> fst ` set (order (raw_entries kvs))" by (simp add: keys)
      from Obj_loop_untouched[OF run this] None show ?thesis
        by (simp split: option.splits)
    next
      case (Some v)
      then have inb: "(k, v) \<in> set (order (raw_entries kvs))" by (simp add: mem)
      show ?thesis
      proof (cases "ob k")
        case None
        from Obj_loop_dom[OF run] None have "ob' k = None" by (metis domIff)
        with None show ?thesis by simp
      next
        case arg: (Some arg)
        from ok inb arg obtain dst w where a: "arg = Some dst" and "decode dst v = Inr w"
          by blast
        from Obj_loop_stored[OF run fn inb] arg a
        obtain w' where "decode dst v = Inr w'" "ob' k = Some (Some (dst\<lparr>held := w'\<rparr>))"
          by blast
        with arg a Some show ?thesis by simp
      qed
    qed
  qed
  show "Obj_UnmarshalJSON order ob (Parsed (JObj kvs)) = (e, ob') \<and> member_value kvs k = None \<longrightarrow>
      ob' k = ob k"
  proof
    assume a: "Obj_UnmarshalJSON order ob (Parsed (JObj kvs)) = (e, ob') \<and> member_value kvs k = None"
    then have run: "Obj_loop (order (raw_entries kvs)) ob = (e, ob')" by (simp add: obj)
    have "k \<in> fst ` set (order (raw_entries kvs)) \<longleftrightarrow> member_value kvs k \<noteq> None"
      unfolding order by (rule raw_entries_keys)
    with a have "k \<notin> fst ` set (order (raw_entries kvs))" by simp
    from Obj_loop_untouched[OF run this] show "ob' k = ob k" .
  qed
  show "(\<forall>kvs. data \<noteq> Parsed (JObj kvs)) \<longrightarrow> snd (Obj_UnmarshalJSON order ob data) = ob"
  proof
    assume n: "\<forall>kvs. data \<noteq> Parsed (JObj kvs)"
    show "snd (Obj_UnmarshalJSON order ob data) = ob"
    proof (cases data)
      case (Malformed msg)
      then show ?thesis by (simp add: Obj_UnmarshalJSON_def Unmarshal_raw_map_def)
    next
      case (Parsed j)
      with n show ?thesis
        by (cases j) (simp_all add: Obj_UnmarshalJSON_def Unmarshal_raw_map_def empty)
    qed
  qed
qed

theorem Obj_UnmarshalJSON_witness:
  "(\<forall>base :: (string \<times> json) list. set (rev base) = set base) \<and>
   Obj_UnmarshalJSON rev ex_obj
       (Parsed (JObj [(''x'', JStr ''old''), (''extra'', JBool True), (''x'', JNum (Number False 5 [] None))])) =
     (None, [''x'' \<mapsto> Some (ex_dest\<lparr>held := 5\<rparr>)]) \<and>
   (\<nexists>ob'. Obj_UnmarshalJSON rev ex_obj (Parsed (JObj [(''x'', JStr ''five'')])) = (None, ob')) \<and>
   (\<nexists>ob'. Obj_UnmarshalJSON rev ex_obj (Parsed (JArr [])) = (None, ob')) \<and>
   snd (Obj_UnmarshalJSON rev ex_obj (Parsed (JArr []))) = ex_obj \<and>
   Obj_UnmarshalJSON rev (ex_obj(''y'' \<mapsto> Some (ex_dest\<lparr>held := 9\<rparr>)))
       (Parsed (JObj [(''extra'', JBool True)])) =
     (None, ex_obj(''y'' \<mapsto> Some (ex_dest\<lparr>held := 9\<rparr>)))"
proof -
  have ord: "\<And>base :: (string \<times> json) list. set (rev base) = set base" by simp
  note inst = Obj_UnmarshalJSON_iff[of rev, OF ord]
  let ?d1 = "Parsed (JObj [(''x'', JStr ''old''), (''extra'', JBool True), (''x'', JNum (Number False 5 [] None))])"
  have "\<exists>ob'. Obj_UnmarshalJSON rev ex_obj ?d1 = (None, ob')"
    unfolding inst[of ex_obj ?d1, THEN conjunct1]
    by (auto simp: member_value_def ex_obj_def ex_dest_def ex_decode_nat_def split: if_splits)
  then obtain ob' where run: "Obj_UnmarshalJSON rev ex_obj ?d1 = (None, ob')" ..
  from inst[of ex_obj ?d1 None ob' "[(''x'', JStr ''old''), (''extra'', JBool True), (''x'', JNum (Number False 5 [] None))]"] run
  have "\<forall>k. ob' k = [''x'' \<mapsto> Some (ex_dest\<lparr>held := 5\<rparr>)] k"
    by (simp add: member_value_def ex_obj_def ex_dest_def ex_decode_nat_def)
  then have "ob' = [''x'' \<mapsto> Some (ex_dest\<lparr>held := 5\<rparr>)]" by (intro ext) simp
  with run have a: "Obj_UnmarshalJSON rev ex_obj ?d1 = (None, [''x'' \<mapsto> Some (ex_dest\<lparr>held := 5\<rparr>)])"
    by simp
  have b: "\<nexists>ob'. Obj_UnmarshalJSON rev ex_obj (Parsed (JObj [(''x'', JStr ''five'')])) = (None, ob')"
    unfolding inst[of ex_obj "Parsed (JObj [(''x'', JStr ''five'')])", THEN conjunct1]
    by (auto simp: member_value_def ex_obj_def ex_dest_def ex_decode_nat_def split: if_splits)
  have c: "\<nexists>ob'. Obj_UnmarshalJSON rev ex_obj (Parsed (JArr [])) = (None, ob')"
    unfolding inst[of ex_obj "Parsed (JArr [])", THEN conjunct1] by simp
  from inst[of ex_obj "Parsed (JArr [])"]
  have d: "snd (Obj_UnmarshalJSON rev ex_obj (Parsed (JArr []))) = ex_obj" by simp
  let ?o2 = "ex_obj(''y'' \<mapsto> Some (ex_dest\<lparr>held := 9\<rparr>))"
  let ?d2 = "Parsed (JObj [(''extra'', JBool True)])"
  have "\<exists>ob'. Obj_UnmarshalJSON rev ?o2 ?d2 = (None, ob')"
    unfolding inst[of ?o2 ?d2, THEN conjunct1]
    by (auto simp: member_value_def ex_obj_def split: if_splits)
  then obtain ob2 where run2: "Obj_UnmarshalJSON rev ?o2 ?d2 = (None, ob2)" ..
  from inst[of ?o2 ?d2 None ob2 "[(''extra'', JBool True)]"] run2
  have "\<forall>k. ob2 k = ?o2 k"
    by (simp add: member_value_def ex_obj_def split: option.splits)
  then have "ob2 = ?o2" by (intro ext) simp
  with run2 have e: "Obj_UnmarshalJSON rev ?o2 ?d2 = (None, ?o2)" by simp
  from ord a b c d e show ?thesis by blast
qed

text \<open>
  The claim as first stated fails: \<open>null\<close>, which is not an object, unmarshals into an
  \<open>Obj\<close>.
\<close>

theorem Obj_UnmarshalJSON_counterexample:
  "Obj_UnmarshalJSON rev ex_obj (Parsed JNull) = (None, ex_obj) \<and> \<not> is_object JNull"
  by (simp add: Obj_UnmarshalJSON_def Unmarshal_raw_map_def is_object_def)

section \<open>Properties of the client\<close>

subsection \<open>Request IDs in decimal\<close>

lemma digit_in_digits: "digit d \<in> set ''0123456789''"
  unfolding digit_def by (rule nth_mem) simp

lemma digit_inj: "a < 10 \<Longrightarrow> b < 10 \<Longrightarrow> digit a = digit b \<Longrightarrow> a = b"
proof -
  assume a: "a < 10" and b: "b < 10" and e: "digit a = digit b"
  have d: "distinct ''0123456789''" by simp
  from e a b have "''0123456789'' ! a = ''0123456789'' ! b" by (simp add: digit_def)
  with d a b show "a = b" by (simp add: nth_eq_iff_index_eq)
qed

lemma nat_dec_nonempty: "nat_dec n \<noteq> []"
  by (subst nat_dec.simps) simp

lemma nat_dec_digits: "set (nat_dec n) \<subseteq> set ''0123456789''"
proof (induction n rule: nat_dec.induct)
  case (1 n)
  show ?case
  proof (cases "n < 10")
    case True
    have "nat_dec n = [digit n]" using True by (subst nat_dec.simps) simp
    with digit_in_digits[of n] show ?thesis by simp
  next
    case False
    have "nat_dec n = nat_dec (n div 10) @ [digit (n mod 10)]"
      using False by (subst nat_dec.simps) simp
    with "1.IH"[OF False] digit_in_digits[of "n mod 10"] show ?thesis by simp
  qed
qed

lemma nat_dec_inj: "nat_dec a = nat_dec b \<Longrightarrow> a = b"
proof (induction a arbitrary: b rule: nat_dec.induct)
  case (1 a)
  show ?case
  proof (cases "a < 10")
    case True
    then have a: "nat_dec a = [digit a]" by (subst nat_dec.simps) simp
    show ?thesis
    proof (cases "b < 10")
      case True
      then have "nat_dec b = [digit b]" by (subst nat_dec.simps) simp
      with a "1.prems" have "digit a = digit b" by simp
      with \<open>a < 10\<close> True show ?thesis by (rule digit_inj)
    next
      case False
      then have "nat_dec b = nat_dec (b div 10) @ [digit (b mod 10)]"
        by (subst nat_dec.simps) simp
      with a "1.prems" nat_dec_nonempty[of "b div 10"] show ?thesis by simp
    qed
  next
    case False
    then have a: "nat_dec a = nat_dec (a div 10) @ [digit (a mod 10)]"
      by (subst nat_dec.simps) simp
    show ?thesis
    proof (cases "b < 10")
      case True
      then have "nat_dec b = [digit b]" by (subst nat_dec.simps) simp
      with a "1.prems" nat_dec_nonempty[of "a div 10"] show ?thesis by simp
    next
      case bge: False
      then have "nat_dec b = nat_dec (b div 10) @ [digit (b mod 10)]"
        by (subst nat_dec.simps) simp
      with a "1.prems" have q: "nat_dec (a div 10) = nat_dec (b div 10)"
        and r: "digit (a mod 10) = digit (b mod 10)" by simp_all
      from "1.IH"[OF False q] have d: "a div 10 = b div 10" .
      from r have m: "a mod 10 = b mod 10" by (intro digit_inj) simp_all
      have "a = a div 10 * 10 + a mod 10" by simp
      also have "\<dots> = b div 10 * 10 + b mod 10" by (simp only: d m)
      also have "\<dots> = b" by simp
      finally show ?thesis .
    qed
  qed
qed

lemma FormatInt_inj: "FormatInt i = FormatInt j \<Longrightarrow> i = j"
proof -
  assume e: "FormatInt i = FormatInt j"
  have no_minus: "CHR ''-'' \<notin> set (nat_dec n)" for n
    using nat_dec_digits[of n] by auto
  have hd_in: "hd (nat_dec n) \<in> set (nat_dec n)" for n
    using nat_dec_nonempty[of n] by simp
  show "i = j"
  proof (cases "i < 0")
    case True
    show ?thesis
    proof (cases "j < 0")
      case jn: True
      with True e have "nat_dec (nat (- i)) = nat_dec (nat (- j))" by (simp add: FormatInt_def)
      then have "nat (- i) = nat (- j)" by (rule nat_dec_inj)
      with True jn show ?thesis by simp
    next
      case False
      with True e have "CHR ''-'' # nat_dec (nat (- i)) = nat_dec (nat j)" by (simp add: FormatInt_def)
      then have "CHR ''-'' \<in> set (nat_dec (nat j))" by (metis list.set_intros(1))
      with no_minus show ?thesis by simp
    qed
  next
    case False
    show ?thesis
    proof (cases "j < 0")
      case True
      with False e have "nat_dec (nat i) = CHR ''-'' # nat_dec (nat (- j))" by (simp add: FormatInt_def)
      then have "CHR ''-'' \<in> set (nat_dec (nat i))" by (metis list.set_intros(1))
      with no_minus show ?thesis by simp
    next
      case jp: False
      with False e have "nat_dec (nat i) = nat_dec (nat j)" by (simp add: FormatInt_def)
      then have "nat i = nat j" by (rule nat_dec_inj)
      with False jp show ?thesis by simp
    qed
  qed
qed

lemma FormatInt_nonempty: "FormatInt i \<noteq> []"
  by (simp add: FormatInt_def nat_dec_nonempty)

lemma FormatInt_0: "FormatInt 0 = ''0''"
  by (simp add: FormatInt_def digit_def nat_dec.simps)

lemma FormatInt_eq_0: "FormatInt i = ''0'' \<longleftrightarrow> i = 0"
  using FormatInt_inj[of i 0] FormatInt_0 by auto

lemma req_result:
  "req c cx m ps =
     (case marshalParams c cx m ps of
        Inl e \<Rightarrow> (Inl e, c)
      | Inr bits \<Rightarrow> (Inr \<lparr>V = Version, ID = FormatInt (sint (nextID c)), M = m, P = bits\<rparr>,
                    c\<lparr>nextID := nextID c + 1\<rparr>))"
  by (simp add: req_def)

lemma marshalParams_cong:
  "enctx c' = enctx c \<Longrightarrow> marshalParams c' cx m ps = marshalParams c cx m ps"
  by (simp add: marshalParams_def split: option.splits sum.splits)

lemma req_n_state:
  "marshalParams c cx m ps = Inr bits \<Longrightarrow>
   req_n n c cx m ps = c\<lparr>nextID := nextID c + of_nat n\<rparr>"
proof (induction n)
  case 0
  then show ?case by simp
next
  case (Suc n)
  have "marshalParams (c\<lparr>nextID := nextID c + of_nat n\<rparr>) cx m ps = Inr bits"
    using Suc.prems by (simp add: marshalParams_cong[of "c\<lparr>nextID := nextID c + of_nat n\<rparr>" c])
  with Suc show ?case by (simp add: req_result add.assoc add.commute)
qed

lemma sint_small: "n < 2 ^ 63 \<Longrightarrow> sint (word_of_nat n :: 64 word) = int n"
proof -
  assume n: "n < 2 ^ 63"
  have "sint (word_of_nat n :: 64 word) = signed_take_bit 63 (int n)"
    using sint_sbintrunc'[where 'a = 64, of "int n"] by simp
  also have "\<dots> = int n"
  proof (rule signed_take_bit_int_eq_self)
    show "- (2 ^ 63) \<le> int n" by simp
    from n have "int n < int (2 ^ 63)" by (simp only: of_nat_less_iff)
    then show "int n < 2 ^ 63" by simp
  qed
  finally show ?thesis .
qed

lemma nth_request:
  assumes ok: "marshalParams c cx m ps = Inr bits"
  shows "fst (req (req_n n c cx m ps) cx m ps) =
           Inr \<lparr>V = Version, ID = FormatInt (sint (nextID c + of_nat n)), M = m, P = bits\<rparr>"
proof -
  have st: "req_n n c cx m ps = c\<lparr>nextID := nextID c + of_nat n\<rparr>"
    by (rule req_n_state[OF ok])
  have mp: "marshalParams (c\<lparr>nextID := nextID c + of_nat n\<rparr>) cx m ps = Inr bits"
    using ok by (simp add: marshalParams_cong[of "c\<lparr>nextID := nextID c + of_nat n\<rparr>" c])
  show ?thesis
    unfolding st by (simp add: req_result mp)
qed

lemma record_pending_result:
  "record_pending cx reqs pend =
     ((\<lambda>i. if i \<in> ID ` {q \<in> set reqs. ID q \<noteq> []} then Some (newPending cx i) else pend i),
      map (\<lambda>q. newPending cx (ID q)) (filter (\<lambda>q. ID q \<noteq> []) reqs))"
proof (induction reqs arbitrary: pend)
  case Nil
  then show ?case by simp
next
  case (Cons r rs)
  show ?case
  proof (cases "ID r = []")
    case True
    have "ID ` {q \<in> set (r # rs). ID q \<noteq> []} = ID ` {q \<in> set rs. ID q \<noteq> []}"
      using True by auto
    with True Cons[of pend] show ?thesis by simp
  next
    case False
    let ?p = "newPending cx (ID r)"
    let ?f = "\<lambda>i. if i \<in> ID ` {q \<in> set rs. ID q \<noteq> []} then Some (newPending cx i)
               else (pend(ID r \<mapsto> ?p)) i"
    let ?ps = "map (\<lambda>q. newPending cx (ID q)) (filter (\<lambda>q. ID q \<noteq> []) rs)"
    have ih: "record_pending cx rs (pend(ID r \<mapsto> ?p)) = (?f, ?ps)"
      by (rule Cons)
    have step: "record_pending cx (r # rs) pend = (?f, ?p # ?ps)"
      using False by (simp add: ih Let_def del: fun_upd_apply)
    have s: "ID ` {q \<in> set (r # rs). ID q \<noteq> []} = insert (ID r) (ID ` {q \<in> set rs. ID q \<noteq> []})"
      using False by auto
    have f: "?f = (\<lambda>i. if i \<in> ID ` {q \<in> set (r # rs). ID q \<noteq> []} then Some (newPending cx i)
               else pend i)"
      unfolding s by (rule ext) simp
    show ?thesis
      unfolding step f using False by simp
  qed
qed

text \<open>The ways \<open>send\<close> returns, in the order of the code.\<close>

lemma send_empty: "reqs = [] \<Longrightarrow> send ops marshal c cx reqs = (Fails (ErrorsNew ''empty request batch''), c)"
  by (simp add: send_def)

lemma send_stopped:
  "reqs \<noteq> [] \<Longrightarrow> err c = Some e \<Longrightarrow> send ops marshal c cx reqs = (Fails e, c)"
  by (simp add: send_def)

lemma send_duplicate:
  "reqs \<noteq> [] \<Longrightarrow> err c = None \<Longrightarrow>
   find (\<lambda>r. ID r \<noteq> [] \<and> pending c (ID r) \<noteq> None) reqs = Some q \<Longrightarrow>
   send ops marshal c cx reqs = (Fails (Errorf ''duplicate request ID %q'' [Quote (ID q)]), c)"
  by (simp add: send_def)

lemma send_marshal_fails:
  "reqs \<noteq> [] \<Longrightarrow> err c = None \<Longrightarrow>
   find (\<lambda>r. ID r \<noteq> [] \<and> pending c (ID r) \<noteq> None) reqs = None \<Longrightarrow>
   marshal reqs = Inl msg \<Longrightarrow>
   send ops marshal c cx reqs = (Fails (Errorf ''marshaling request failed: %v'' [msg]), c)"
  by (simp add: send_def)

lemma send_nil_channel:
  "reqs \<noteq> [] \<Longrightarrow> err c = None \<Longrightarrow>
   find (\<lambda>r. ID r \<noteq> [] \<and> pending c (ID r) \<noteq> None) reqs = None \<Longrightarrow>
   marshal reqs = Inr b \<Longrightarrow> ch_nil c \<Longrightarrow>
   send ops marshal c cx reqs = (Panics NilDereference, c)"
  by (simp add: send_def)

lemma send_Send_fails:
  "reqs \<noteq> [] \<Longrightarrow> err c = None \<Longrightarrow>
   find (\<lambda>r. ID r \<noteq> [] \<and> pending c (ID r) \<noteq> None) reqs = None \<Longrightarrow>
   marshal reqs = Inr b \<Longrightarrow> \<not> ch_nil c \<Longrightarrow> Send ops (ch c) b = (Some e, s) \<Longrightarrow>
   send ops marshal c cx reqs = (Fails e, c\<lparr>ch := s\<rparr>)"
  by (simp add: send_def)

lemma send_sent:
  "reqs \<noteq> [] \<Longrightarrow> err c = None \<Longrightarrow>
   find (\<lambda>r. ID r \<noteq> [] \<and> pending c (ID r) \<noteq> None) reqs = None \<Longrightarrow>
   marshal reqs = Inr b \<Longrightarrow> \<not> ch_nil c \<Longrightarrow> Send ops (ch c) b = (None, s) \<Longrightarrow>
   send ops marshal c cx reqs =
     (Returns (map (\<lambda>q. newPending cx (ID q)) (filter (\<lambda>q. ID q \<noteq> []) reqs)),
      c\<lparr>ch := s,
        pending := (\<lambda>i. if i \<in> ID ` {q \<in> set reqs. ID q \<noteq> []} then Some (newPending cx i)
                        else pending c i)\<rparr>)"
  by (simp add: send_def record_pending_result)

lemma send_cases:
  obtains
    (empty) "reqs = []" "send ops marshal c cx reqs = (Fails (ErrorsNew ''empty request batch''), c)"
  | (stopped) e where "reqs \<noteq> []" "err c = Some e" "send ops marshal c cx reqs = (Fails e, c)"
  | (duplicate) q where "reqs \<noteq> []" "err c = None" "q \<in> set reqs" "ID q \<noteq> []" "pending c (ID q) \<noteq> None"
      "send ops marshal c cx reqs = (Fails (Errorf ''duplicate request ID %q'' [Quote (ID q)]), c)"
  | (unmarshalable) msg where "reqs \<noteq> []" "err c = None"
      "\<forall>q \<in> set reqs. ID q \<noteq> [] \<longrightarrow> pending c (ID q) = None"
      "marshal reqs = Inl msg"
      "send ops marshal c cx reqs = (Fails (Errorf ''marshaling request failed: %v'' [msg]), c)"
  | (nil_channel) b where "reqs \<noteq> []" "err c = None"
      "\<forall>q \<in> set reqs. ID q \<noteq> [] \<longrightarrow> pending c (ID q) = None"
      "marshal reqs = Inr b" "ch_nil c"
      "send ops marshal c cx reqs = (Panics NilDereference, c)"
  | (send_failed) b e s where "reqs \<noteq> []" "err c = None"
      "\<forall>q \<in> set reqs. ID q \<noteq> [] \<longrightarrow> pending c (ID q) = None"
      "marshal reqs = Inr b" "\<not> ch_nil c" "Send ops (ch c) b = (Some e, s)"
      "send ops marshal c cx reqs = (Fails e, c\<lparr>ch := s\<rparr>)"
  | (sent) b s where "reqs \<noteq> []" "err c = None"
      "\<forall>q \<in> set reqs. ID q \<noteq> [] \<longrightarrow> pending c (ID q) = None"
      "marshal reqs = Inr b" "\<not> ch_nil c" "Send ops (ch c) b = (None, s)"
      "send ops marshal c cx reqs =
         (Returns (map (\<lambda>q. newPending cx (ID q)) (filter (\<lambda>q. ID q \<noteq> []) reqs)),
          c\<lparr>ch := s,
            pending := (\<lambda>i. if i \<in> ID ` {q \<in> set reqs. ID q \<noteq> []} then Some (newPending cx i)
                            else pending c i)\<rparr>)"
proof (cases "reqs = []")
  case True
  then show ?thesis using empty send_empty by blast
next
  case ne: False
  show ?thesis
  proof (cases "err c")
    case (Some e)
    then show ?thesis using stopped[OF ne Some] send_stopped[OF ne Some] by blast
  next
    case None
    show ?thesis
    proof (cases "find (\<lambda>r. ID r \<noteq> [] \<and> pending c (ID r) \<noteq> None) reqs")
      case (Some q)
      then have "q \<in> set reqs" "ID q \<noteq> []" "pending c (ID q) \<noteq> None"
        by (auto simp: find_Some_iff in_set_conv_nth)
      then show ?thesis using duplicate[OF ne None] send_duplicate[OF ne None Some] by blast
    next
      case nodup: None
      then have free: "\<forall>q \<in> set reqs. ID q \<noteq> [] \<longrightarrow> pending c (ID q) = None"
        by (auto simp: find_None_iff)
      show ?thesis
      proof (cases "marshal reqs")
        case (Inl msg)
        then show ?thesis
          using unmarshalable[OF ne None free] send_marshal_fails[where marshal = marshal, OF ne None nodup] by blast
      next
        case (Inr b)
        show ?thesis
        proof (cases "ch_nil c")
          case True
          then show ?thesis
            using nil_channel[OF ne None free Inr] send_nil_channel[where marshal = marshal, OF ne None nodup Inr] by blast
        next
          case False
          obtain r s where snd: "Send ops (ch c) b = (r, s)" by (cases "Send ops (ch c) b")
          show ?thesis
          proof (cases r)
            case None
            with snd show ?thesis
              using sent[OF ne \<open>err c = None\<close> free Inr False]
                send_sent[where marshal = marshal, OF ne \<open>err c = None\<close> nodup Inr False] by blast
          next
            case (Some e)
            with snd show ?thesis
              using send_failed[OF ne None free Inr False]
                send_Send_fails[where marshal = marshal, OF ne None nodup Inr False] by blast
          qed
        qed
      qed
    qed
  qed
qed

lemma ex_client_fields:
  "err ex_client = None" "ch_nil ex_client = False" "pending ex_client = Map.empty"
  "nextID ex_client = 1" "ch ex_client = ([], False)" "enctx ex_client = (\<lambda>cx m p. Inr p)"
  "allowC ex_client = False"
  by (simp_all add: ex_client_def NewClient_def ex_options_def)

lemma ex_busy_fields:
  "err ex_busy = None" "ch_nil ex_busy = False"
  "pending ex_busy = [''1'' \<mapsto> newPending Background ''1'']"
  "nextID ex_busy = 2" "ch ex_busy = ([''[m:1]''], False)" "enctx ex_busy = (\<lambda>cx m p. Inr p)"
  "allowC ex_busy = False"
  by (simp_all add: ex_busy_def ex_client_fields)

lemma ex_req_first:
  "req ex_client Background ''m'' None = (Inr ex_req1, ex_client\<lparr>nextID := 2\<rparr>)"
  by (simp add: req_result marshalParams_def ex_client_fields ex_req1_def FormatInt_def
        digit_def nat_dec.simps)

lemma ex_send_first:
  "send ex_ops ex_marshal (ex_client\<lparr>nextID := 2\<rparr>) Background [ex_req1] =
     (Returns [newPending Background ''1''], ex_busy)"
  by (simp add: send_def ex_req1_def ex_marshal_def ex_ops_def ex_busy_def Let_def
        ex_client_def NewClient_def)

lemma ex_send_bad:
  "send ex_ops ex_marshal ex_client Background [ex_bad] =
     (Fails (Errorf ''marshaling request failed: %v'' [''json: unexpected end of JSON input'']),
      ex_client)"
  by (simp add: send_def ex_client_fields ex_bad_def ex_marshal_def)

lemma ex_send_closed:
  "send ex_ops ex_marshal (ex_client\<lparr>ch := ([], True)\<rparr>) Background [ex_req1] =
     (Fails (ErrorsNew ''send on closed channel''), ex_client\<lparr>ch := ([], True)\<rparr>)"
  by (simp add: send_def ex_client_fields ex_req1_def ex_marshal_def ex_ops_def)

text \<open>
  C1. A \<open>send\<close> that does not return its pending responses leaves the registry of pending
  requests as it was: no entry is added for any request of the batch, whether the batch was
  empty, the client stopped, an ID already pending, the batch not marshalable or the send on the
  channel refused. In the two failures of the claim (marshaling, channel send) the error returned
  is the one of the code, the client is otherwise unchanged (the channel apart, which has seen
  the send), and every ID of the batch is still unregistered afterwards. The registry changes
  only when both marshaling and the channel send succeed; then, and only then, \<open>send\<close>
  returns, with one pending response per request that has an ID, in the order of the batch, each
  registered under its ID.
\<close>

theorem send_failure_keeps_registry:
  assumes run: "send ops marshal c cx reqs = (r, c')"
  shows "((\<forall>pends. r \<noteq> Returns pends) \<longrightarrow> pending c' = pending c) \<and>
         (reqs \<noteq> [] \<and> err c = None \<and>
          (\<forall>q \<in> set reqs. ID q \<noteq> [] \<longrightarrow> pending c (ID q) = None) \<and>
          marshal reqs = Inl msg \<longrightarrow>
            r = Fails (Errorf ''marshaling request failed: %v'' [msg]) \<and> c' = c \<and>
            (\<forall>q \<in> set reqs. ID q \<noteq> [] \<longrightarrow> pending c' (ID q) = None)) \<and>
         (reqs \<noteq> [] \<and> err c = None \<and> \<not> ch_nil c \<and>
          (\<forall>q \<in> set reqs. ID q \<noteq> [] \<longrightarrow> pending c (ID q) = None) \<and>
          marshal reqs = Inr b \<and> Send ops (ch c) b = (Some e, s) \<longrightarrow>
            r = Fails e \<and> c' = c\<lparr>ch := s\<rparr> \<and>
            (\<forall>q \<in> set reqs. ID q \<noteq> [] \<longrightarrow> pending c' (ID q) = None)) \<and>
         (pending c' \<noteq> pending c \<longrightarrow>
            (\<exists>b s pends. marshal reqs = Inr b \<and> Send ops (ch c) b = (None, s) \<and>
                         ch c' = s \<and> r = Returns pends)) \<and>
         (reqs \<noteq> [] \<and> err c = None \<and> \<not> ch_nil c \<and>
          (\<forall>q \<in> set reqs. ID q \<noteq> [] \<longrightarrow> pending c (ID q) = None) \<and>
          marshal reqs = Inr b \<and> Send ops (ch c) b = (None, s) \<longrightarrow>
            r = Returns (map (\<lambda>q. newPending cx (ID q)) (filter (\<lambda>q. ID q \<noteq> []) reqs)) \<and>
            c' = c\<lparr>ch := s,
                   pending := (\<lambda>i. if i \<in> ID ` {q \<in> set reqs. ID q \<noteq> []}
                                   then Some (newPending cx i) else pending c i)\<rparr>) \<and>
         (\<forall>pends. r = Returns pends \<longrightarrow>
            (\<exists>b s. marshal reqs = Inr b \<and> Send ops (ch c) b = (None, s) \<and> ch c' = s) \<and>
            pends = map (\<lambda>q. newPending cx (ID q)) (filter (\<lambda>q. ID q \<noteq> []) reqs) \<and>
            pending c' = (\<lambda>i. if i \<in> ID ` {q \<in> set reqs. ID q \<noteq> []}
                               then Some (newPending cx i) else pending c i))"
proof (cases rule: send_cases[of reqs ops marshal c cx])
  case empty
  with run have "r = Fails (ErrorsNew ''empty request batch'')" "c' = c" by simp_all
  with empty show ?thesis by simp
next
  case (stopped e0)
  with run have "r = Fails e0" "c' = c" by simp_all
  with stopped show ?thesis by simp
next
  case (duplicate q)
  with run have "r = Fails (Errorf ''duplicate request ID %q'' [Quote (ID q)])" "c' = c" by simp_all
  with duplicate show ?thesis by auto
next
  case (unmarshalable msg0)
  with run have "r = Fails (Errorf ''marshaling request failed: %v'' [msg0])" "c' = c" by simp_all
  with unmarshalable show ?thesis by auto
next
  case (nil_channel b0)
  with run have "r = Panics NilDereference" "c' = c" by simp_all
  with nil_channel show ?thesis by auto
next
  case (send_failed b0 e0 s0)
  with run have "r = Fails e0" "c' = c\<lparr>ch := s0\<rparr>" by simp_all
  with send_failed show ?thesis by auto
next
  case (sent b0 s0)
  with run have "r = Returns (map (\<lambda>q. newPending cx (ID q)) (filter (\<lambda>q. ID q \<noteq> []) reqs))"
    "c' = c\<lparr>ch := s0,
            pending := (\<lambda>i. if i \<in> ID ` {q \<in> set reqs. ID q \<noteq> []} then Some (newPending cx i)
                            else pending c i)\<rparr>" by simp_all
  with sent show ?thesis by auto
qed

theorem send_failure_keeps_registry_witness:
  "send ex_ops ex_marshal ex_client Background [ex_bad] =
     (Fails (Errorf ''marshaling request failed: %v'' [''json: unexpected end of JSON input'']),
      ex_client) \<and>
   ex_marshal [ex_bad] = Inl ''json: unexpected end of JSON input'' \<and>
   pending ex_client (ID ex_bad) = None \<and>
   Send ex_ops ([], True) ''[m:1]'' = (Some (ErrorsNew ''send on closed channel''), ([], True)) \<and>
   send ex_ops ex_marshal (ex_client\<lparr>ch := ([], True)\<rparr>) Background [ex_req1] =
     (Fails (ErrorsNew ''send on closed channel''), ex_client\<lparr>ch := ([], True)\<rparr>) \<and>
   pending (ex_client\<lparr>ch := ([], True)\<rparr>) (ID ex_req1) = None \<and>
   send ex_ops ex_marshal (ex_client\<lparr>nextID := 2\<rparr>) Background [ex_req1] =
     (Returns [newPending Background ''1''], ex_busy) \<and>
   pending ex_busy \<noteq> pending (ex_client\<lparr>nextID := 2\<rparr>) \<and>
   (\<exists>b. ex_marshal [ex_req1] = Inr b \<and>
        Send ex_ops (ch (ex_client\<lparr>nextID := 2\<rparr>)) b = (None, ch ex_busy))"
proof -
  have m: "ex_marshal [ex_bad] = Inl ''json: unexpected end of JSON input''"
    by (simp add: ex_marshal_def ex_bad_def)
  have m1: "ex_marshal [ex_req1] = Inr ''[m:1]''"
    by (simp add: ex_marshal_def ex_req1_def)
  have closed: "Send ex_ops ([], True) ''[m:1]'' = (Some (ErrorsNew ''send on closed channel''), ([], True))"
    by (simp add: ex_ops_def)
  have differs: "pending ex_busy \<noteq> pending (ex_client\<lparr>nextID := 2\<rparr>)"
  proof
    assume "pending ex_busy = pending (ex_client\<lparr>nextID := 2\<rparr>)"
    then have "pending ex_busy ''1'' = pending (ex_client\<lparr>nextID := 2\<rparr>) ''1''" by simp
    then show False by (simp add: ex_busy_fields ex_client_fields)
  qed
  have g1: "[ex_bad] \<noteq> [] \<and> err ex_client = None \<and>
      (\<forall>q \<in> set [ex_bad]. ID q \<noteq> [] \<longrightarrow> pending ex_client (ID q) = None)"
    by (simp add: ex_client_fields)
  have g2: "[ex_req1] \<noteq> [] \<and> err (ex_client\<lparr>ch := ([], True)\<rparr>) = None \<and>
      \<not> ch_nil (ex_client\<lparr>ch := ([], True)\<rparr>) \<and>
      (\<forall>q \<in> set [ex_req1]. ID q \<noteq> [] \<longrightarrow> pending (ex_client\<lparr>ch := ([], True)\<rparr>) (ID q) = None)"
    by (simp add: ex_client_fields)
  have idb: "ex_bad \<in> set [ex_bad]" "ID ex_bad \<noteq> []" by (simp_all add: ex_bad_def)
  have idr: "ex_req1 \<in> set [ex_req1]" "ID ex_req1 \<noteq> []" by (simp_all add: ex_req1_def)
  from send_failure_keeps_registry[OF ex_send_bad,
      where msg = "''json: unexpected end of JSON input''" and b = "[]" and e = EOF and s = "([], True)"]
    g1 m idb
  have a: "pending ex_client (ID ex_bad) = None" by blast
  from send_failure_keeps_registry[OF ex_send_closed,
      where msg = "[]" and b = "''[m:1]''" and e = "ErrorsNew ''send on closed channel''"
        and s = "([], True)"]
    g2 m1 closed idr
  have b: "pending (ex_client\<lparr>ch := ([], True)\<rparr>) (ID ex_req1) = None"
    by (simp add: ex_client_fields)
  from send_failure_keeps_registry[OF ex_send_first,
      where msg = "[]" and b = "[]" and e = EOF and s = "([], True)"] differs
  have c: "\<exists>b. ex_marshal [ex_req1] = Inr b \<and>
        Send ex_ops (ch (ex_client\<lparr>nextID := 2\<rparr>)) b = (None, ch ex_busy)"
    by blast
  from ex_send_bad m a closed ex_send_closed b ex_send_first differs c show ?thesis by blast
qed

lemma sint_eq_0: "sint (w :: 64 word) = 0 \<longleftrightarrow> w = 0"
  using word_eq_iff_signed[where 'a = int, of w 0] by simp

lemma nth_new_request:
  assumes ok: "marshalParams (NewClient ch0 opts) cx m ps = Inr bits"
  shows "fst (req (req_n n (NewClient ch0 opts) cx m ps) cx m ps) =
           Inr \<lparr>V = Version, ID = FormatInt (sint (word_of_nat (Suc n) :: 64 word)), M = m, P = bits\<rparr>"
  using nth_request[OF ok, of n] by (simp add: NewClient_def)

lemma jerrorf_ctx:
  "jerrorf (FromError e) (ctx_error_text e) [] =
     \<lparr>Message = ctx_error_text e, Code = FromError e, Data = []\<rparr>"
  by (cases e) (simp_all add: jerrorf_def RPCErrorf_def ctx_error_text_def)




lemma waitComplete_pending:
  "Err (rsp_ctx p) = Some e \<Longrightarrow> pending c i \<noteq> None \<Longrightarrow>
   \<exists>c'. waitComplete ops marshal c i p =
     Some (Some (p\<lparr>rsp_ch := Some \<lparr>rV = [], rID = i,
                      rE = Some \<lparr>Message = ctx_error_text e, Code = FromError e, Data = []\<rparr>,
                      rR = [], rM = [], rP = []\<rparr>\<rparr>), c') \<and>
     pending c' i = None"
proof -
  assume e: "Err (rsp_ctx p) = Some e" and pend: "pending c i \<noteq> None"
  let ?c' = "c\<lparr>pending := (pending c)(i := None)\<rparr>"
  have note_keeps: "pending (snd (Client_Notify ops marshal ?c' Background ''rpc.cancel'' (Some (RawMessages [i])))) = pending ?c'"
  proof (cases "note_request ?c' Background ''rpc.cancel'' (Some (RawMessages [i]))")
    case (Inl err)
    then show ?thesis by (simp add: Client_Notify_def)
  next
    case (Inr r)
    then have id: "ID r = []" by (auto simp: note_request_def split: sum.splits)
    have "pending (snd (send ops marshal ?c' Background [r])) = pending ?c'"
      using id by (cases rule: send_cases[of "[r]" ops marshal ?c' Background]) auto
    with Inr show ?thesis
      by (cases "send ops marshal ?c' Background [r]" rule: prod.exhaust[where 'a = "'a Response list result"])
         (auto simp: Client_Notify_def split: result.splits)
  qed
  show ?thesis
    using e pend note_keeps
    by (simp add: waitComplete_def jerrorf_ctx Let_def)
qed

text \<open>
  C2, as amended. A new client starts its counter at 1, with an empty registry. Each request
  built by \<open>req\<close> takes the decimal text of the counter as its ID and advances the counter by
  one, with the wrap-around of int64; the registry is not touched. So the \<open>(n+1)\<close>-th request
  of a client has the ID \<open>n + 1\<close> as long as \<open>n + 1 < 2 ^ 63\<close>, and the ID \<open>0\<close> is not issued
  to any of the first \<open>2 ^ 64 - 1\<close> requests; distinct numbers have distinct texts. The
  registry is a map keyed by the ID: \<open>send\<close> refuses a batch with an ID that is already
  pending, and a \<open>send\<close> that succeeds found every ID of the batch free and keeps every entry
  that was there. An entry leaves the registry when its response is delivered, or when
  \<open>waitComplete\<close> finds its context ended.
\<close>

theorem request_IDs:
  "nextID (NewClient ch0 opts) = 1 \<and> pending (NewClient ch0 opts) = Map.empty \<and>
   (req c cx m ps = (Inr q, c') \<longrightarrow>
      ID q = FormatInt (sint (nextID c)) \<and> nextID c' = nextID c + 1 \<and> pending c' = pending c) \<and>
   (marshalParams (NewClient ch0 opts) cx m ps = Inr bits \<and> n < 2 ^ 63 - 1 \<longrightarrow>
      fst (req (req_n n (NewClient ch0 opts) cx m ps) cx m ps) =
        Inr \<lparr>V = Version, ID = FormatInt (int n + 1), M = m, P = bits\<rparr>) \<and>
   (marshalParams (NewClient ch0 opts) cx m ps = Inr bits \<and> n < 2 ^ 64 - 1 \<longrightarrow>
      (\<exists>i. i \<noteq> ''0'' \<and>
           fst (req (req_n n (NewClient ch0 opts) cx m ps) cx m ps) =
             Inr \<lparr>V = Version, ID = i, M = m, P = bits\<rparr>)) \<and>
   (FormatInt k = FormatInt l \<longrightarrow> k = l) \<and>
   (reqs \<noteq> [] \<and> err c = None \<and> (\<exists>q \<in> set reqs. ID q \<noteq> [] \<and> pending c (ID q) \<noteq> None) \<longrightarrow>
      (\<exists>q \<in> set reqs. ID q \<noteq> [] \<and> pending c (ID q) \<noteq> None \<and>
         send ops marshal c cx reqs =
           (Fails (Errorf ''duplicate request ID %q'' [Quote (ID q)]), c))) \<and>
   (send ops marshal c cx reqs = (Returns pends, c2) \<longrightarrow>
      (\<forall>q \<in> set reqs. ID q \<noteq> [] \<longrightarrow> pending c (ID q) = None) \<and>
      (\<forall>i p. pending c i = Some p \<longrightarrow> pending c2 i = Some p)) \<and>
   (fixID (rID rsp) \<noteq> [] \<and> pending c (fixID (rID rsp)) \<noteq> None \<longrightarrow>
      pending (snd (deliver fixID c rsp)) = (pending c)(fixID (rID rsp) := None)) \<and>
   (Err (rsp_ctx p0) \<noteq> None \<and> pending c i0 \<noteq> None \<longrightarrow>
      (\<exists>d c3. waitComplete ops marshal c i0 p0 = Some (d, c3) \<and> pending c3 i0 = None))"
proof (intro conjI impI)
  show "nextID (NewClient ch0 opts) = 1" "pending (NewClient ch0 opts) = Map.empty"
    by (simp_all add: NewClient_def)
next
  assume "req c cx m ps = (Inr q, c')"
  then show "ID q = FormatInt (sint (nextID c))" "nextID c' = nextID c + 1" "pending c' = pending c"
    by (auto simp: req_result split: sum.splits)
next
  assume a: "marshalParams (NewClient ch0 opts) cx m ps = Inr bits \<and> n < 2 ^ 63 - 1"
  then have "Suc n < 2 ^ 63" by simp
  then have "sint (word_of_nat (Suc n) :: 64 word) = int (Suc n)" by (rule sint_small)
  with nth_new_request[of ch0 opts cx m ps bits n] a
  show "fst (req (req_n n (NewClient ch0 opts) cx m ps) cx m ps) =
        Inr \<lparr>V = Version, ID = FormatInt (int n + 1), M = m, P = bits\<rparr>"
    by (simp add: add.commute)
next
  assume a: "marshalParams (NewClient ch0 opts) cx m ps = Inr bits \<and> n < 2 ^ 64 - 1"
  then have "0 < Suc n" "Suc n < 2 ^ LENGTH(64)" by simp_all
  then have "(word_of_nat (Suc n) :: 64 word) \<noteq> 0" by (rule of_nat_neq_0)
  then have "FormatInt (sint (word_of_nat (Suc n) :: 64 word)) \<noteq> ''0''"
    by (simp only: FormatInt_eq_0 sint_eq_0 not_False_eq_True)
  with nth_new_request[of ch0 opts cx m ps bits n] a
  show "\<exists>i. i \<noteq> ''0'' \<and>
           fst (req (req_n n (NewClient ch0 opts) cx m ps) cx m ps) =
             Inr \<lparr>V = Version, ID = i, M = m, P = bits\<rparr>"
    by blast
next
  assume "FormatInt k = FormatInt l"
  then show "k = l" by (rule FormatInt_inj)
next
  assume a: "reqs \<noteq> [] \<and> err c = None \<and> (\<exists>q \<in> set reqs. ID q \<noteq> [] \<and> pending c (ID q) \<noteq> None)"
  show "\<exists>q \<in> set reqs. ID q \<noteq> [] \<and> pending c (ID q) \<noteq> None \<and>
         send ops marshal c cx reqs =
           (Fails (Errorf ''duplicate request ID %q'' [Quote (ID q)]), c)"
    using a by (cases rule: send_cases[of reqs ops marshal c cx]) auto
next
  assume a: "send ops marshal c cx reqs = (Returns pends, c2)"
  then have "(\<forall>q \<in> set reqs. ID q \<noteq> [] \<longrightarrow> pending c (ID q) = None) \<and>
      (\<forall>i p. pending c i = Some p \<longrightarrow> pending c2 i = Some p)"
    by (cases rule: send_cases[of reqs ops marshal c cx]) auto
  then show "\<forall>q \<in> set reqs. ID q \<noteq> [] \<longrightarrow> pending c (ID q) = None"
    "\<forall>i p. pending c i = Some p \<longrightarrow> pending c2 i = Some p" by simp_all
next
  assume "fixID (rID rsp) \<noteq> [] \<and> pending c (fixID (rID rsp)) \<noteq> None"
  then show "pending (snd (deliver fixID c rsp)) = (pending c)(fixID (rID rsp) := None)"
    by (auto simp: deliver_def Let_def)
next
  assume a: "Err (rsp_ctx p0) \<noteq> None \<and> pending c i0 \<noteq> None"
  then obtain e0 where "Err (rsp_ctx p0) = Some e0" by auto
  from waitComplete_pending[OF this, of c i0 ops marshal] a
  show "\<exists>d c3. waitComplete ops marshal c i0 p0 = Some (d, c3) \<and> pending c3 i0 = None"
    by blast
qed

lemma ex_send_duplicate:
  "send ex_ops ex_marshal ex_busy Background [ex_req1] =
     (Fails (Errorf ''duplicate request ID %q'' [Quote ''1'']), ex_busy)"
  by (simp add: send_def ex_busy_fields ex_req1_def)

theorem request_IDs_witness:
  "nextID (NewClient ([], False) ex_options) = 1 \<and>
   req ex_client Background ''m'' None = (Inr ex_req1, ex_client\<lparr>nextID := 2\<rparr>) \<and>
   ID ex_req1 = FormatInt (sint (nextID ex_client)) \<and>
   marshalParams (NewClient ([], False) ex_options) Background ''m'' None = Inr [] \<and>
   (2 :: nat) < 2 ^ 63 - 1 \<and>
   fst (req (req_n 2 (NewClient ([], False) ex_options) Background ''m'' None) Background ''m'' None) =
     Inr \<lparr>V = Version, ID = ''3'', M = ''m'', P = []\<rparr> \<and>
   ex_req1 \<in> set [ex_req1] \<and> pending ex_busy (ID ex_req1) \<noteq> None \<and>
   send ex_ops ex_marshal ex_busy Background [ex_req1] =
     (Fails (Errorf ''duplicate request ID %q'' [Quote ''1'']), ex_busy) \<and>
   send ex_ops ex_marshal (ex_client\<lparr>nextID := 2\<rparr>) Background [ex_req1] =
     (Returns [newPending Background ''1''], ex_busy) \<and>
   pending (ex_client\<lparr>nextID := 2\<rparr>) (ID ex_req1) = None"
proof -
  have ok: "marshalParams (NewClient ([], False) ex_options) Background ''m'' None = Inr []"
    by (simp add: marshalParams_def NewClient_def ex_options_def)
  have small: "(2 :: nat) < 2 ^ 63 - 1" by simp
  have busy: "pending ex_busy (ID ex_req1) \<noteq> None"
    by (simp add: ex_busy_fields ex_req1_def)
  note inst = request_IDs[where ?ch0.0 = "([], False)" and opts = ex_options and cx = Background
      and m = "''m''" and ps = None and bits = "[]" and ops = ex_ops and marshal = ex_marshal
      and reqs = "[ex_req1]" and n = 2 and q = ex_req1 and c' = "ex_client\<lparr>nextID := 2\<rparr>"
      and pends = "[newPending Background ''1'']" and ?c2.0 = ex_busy
      and k = 0 and l = 0 and fixID = "\<lambda>i. i" and rsp = "\<lparr>rV = [], rID = [], rE = None, rR = [], rM = [], rP = []\<rparr>"
      and ?p0.0 = "newPending Background ''1''" and ?i0.0 = "''1''"]
  from inst[where c = ex_client]
  have a: "nextID (NewClient ([], False) ex_options) = 1" by blast
  from inst[where c = ex_client] ex_req_first
  have b: "ID ex_req1 = FormatInt (sint (nextID ex_client))" by blast
  from inst[where c = ex_client] ok small
  have "fst (req (req_n 2 (NewClient ([], False) ex_options) Background ''m'' None) Background ''m'' None) =
     Inr \<lparr>V = Version, ID = FormatInt (int 2 + 1), M = ''m'', P = []\<rparr>"
    by blast
  then have c: "fst (req (req_n 2 (NewClient ([], False) ex_options) Background ''m'' None) Background ''m'' None) =
     Inr \<lparr>V = Version, ID = ''3'', M = ''m'', P = []\<rparr>"
    by (simp add: FormatInt_def digit_def nat_dec.simps)
  have idne: "ex_req1 \<in> set [ex_req1]" "ID ex_req1 \<noteq> []" by (simp_all add: ex_req1_def)
  from inst[where c = "ex_client\<lparr>nextID := 2\<rparr>"] ex_send_first idne
  have d: "pending (ex_client\<lparr>nextID := 2\<rparr>) (ID ex_req1) = None" by blast
  have pre: "[ex_req1] \<noteq> [] \<and> err ex_busy = None \<and>
      (\<exists>q \<in> set [ex_req1]. ID q \<noteq> [] \<and> pending ex_busy (ID q) \<noteq> None)"
    by (simp add: ex_busy_fields ex_req1_def)
  from inst[where c = ex_busy] pre
  have "\<exists>q \<in> set [ex_req1]. ID q \<noteq> [] \<and> pending ex_busy (ID q) \<noteq> None \<and>
         send ex_ops ex_marshal ex_busy Background [ex_req1] =
           (Fails (Errorf ''duplicate request ID %q'' [Quote (ID q)]), ex_busy)"
    by blast
  then have e: "send ex_ops ex_marshal ex_busy Background [ex_req1] =
     (Fails (Errorf ''duplicate request ID %q'' [Quote ''1'']), ex_busy)"
    by (simp add: ex_req1_def)
  from a ex_req_first b ok small c busy e ex_send_first d show ?thesis by simp
qed

text \<open>
  The claim as worded (the ID \<open>0\<close> is never issued by the client) fails after
  \<open>2 ^ 64 - 1\<close> requests: the counter, an int64, has wrapped around to 0, and the next
  request carries the ID \<open>0\<close>.
\<close>

theorem request_IDs_counterexample:
  "fst (req (req_n (2 ^ 64 - 1) ex_client Background ''m'' None) Background ''m'' None) =
     Inr \<lparr>V = Version, ID = ''0'', M = ''m'', P = []\<rparr>"
proof -
  have ok: "marshalParams ex_client Background ''m'' None = Inr []"
    by (simp add: marshalParams_def ex_client_def NewClient_def ex_options_def)
  have one: "nextID ex_client = 1"
    by (simp add: ex_client_def NewClient_def)
  have z: "(1 :: 64 word) + of_nat (2 ^ 64 - 1) = 0" by simp
  have "sint ((1 :: 64 word) + of_nat (2 ^ 64 - 1)) = 0"
    unfolding z by simp
  then have "FormatInt (sint (nextID ex_client + of_nat (2 ^ 64 - 1))) = ''0''"
    unfolding one by (simp only: FormatInt_0)
  with nth_request[OF ok, of "2 ^ 64 - 1"] show ?thesis
    by (simp only:)
qed






lemma head_rejected:
  "x \<noteq> CHR ''['' \<Longrightarrow> x \<noteq> CHR ''{'' \<Longrightarrow> x \<noteq> CHR ''n'' \<Longrightarrow>
   (case x # xs of [] \<Rightarrow> True | b # _ \<Rightarrow> b \<noteq> CHR ''['' \<and> b \<noteq> CHR ''{'' \<and> x # xs \<noteq> ''null'')"
  by auto

lemma digits_not_special:
  "x \<in> set ''0123456789'' \<Longrightarrow> x \<noteq> CHR ''['' \<and> x \<noteq> CHR ''{'' \<and> x \<noteq> CHR ''n''"
  by auto

lemma number_text_head:
  "\<exists>x xs. number_text n = x # xs \<and> x \<noteq> CHR ''['' \<and> x \<noteq> CHR ''{'' \<and> x \<noteq> CHR ''n''"
proof (cases n)
  case (Number neg whole frac ex)
  obtain d ds where d: "nat_dec whole = d # ds"
    using nat_dec_nonempty[of whole] by (cases "nat_dec whole") auto
  then have "d \<in> set ''0123456789''" using nat_dec_digits[of whole] by auto
  then have "d \<noteq> CHR ''['' \<and> d \<noteq> CHR ''{'' \<and> d \<noteq> CHR ''n''" by (rule digits_not_special)
  with Number d show ?thesis by (cases neg) (simp_all add: number_text_def)
qed

lemma encode_head_other:
  "\<not> array_object_or_null j \<Longrightarrow>
   \<exists>x xs. encode j = x # xs \<and> x \<noteq> CHR ''['' \<and> x \<noteq> CHR ''{'' \<and> x \<noteq> CHR ''n''"
proof (cases j)
  case (JNum n)
  with number_text_head[of n] show ?thesis by simp
qed (simp_all add: array_object_or_null_def Quote_def)

lemma encode_head_allowed:
  "array_object_or_null j \<Longrightarrow>
   \<not> (case encode j of [] \<Rightarrow> True
       | b # _ \<Rightarrow> b \<noteq> CHR ''['' \<and> b \<noteq> CHR ''{'' \<and> encode j \<noteq> ''null'')"
  by (cases j) (simp_all add: array_object_or_null_def)

lemma invalid_message:
  "RPCErrorf InvalidRequest ''invalid parameters: array or object required'' [] =
     \<lparr>Message = ''invalid parameters: array or object required'', Code = InvalidRequest, Data = []\<rparr>"
  by (simp add: RPCErrorf_def)

lemma marshalParams_rejects:
  assumes "\<not> array_object_or_null j"
  shows "marshalParams c cx m (Some (Encodes j)) =
     Inl (RPCError \<lparr>Message = ''invalid parameters: array or object required'',
                     Code = InvalidRequest, Data = []\<rparr>)"
proof -
  from encode_head_other[OF assms] obtain x xs where
    e: "encode j = x # xs" and x: "x \<noteq> CHR ''[''" "x \<noteq> CHR ''{''" "x \<noteq> CHR ''n''" by blast
  from head_rejected[OF x, of xs] show ?thesis
    unfolding marshalParams_def json_Marshal_def invalid_message by (simp add: e)
qed

lemma marshalParams_accepts:
  "array_object_or_null j \<Longrightarrow>
   marshalParams c cx m (Some (Encodes j)) = enctx c cx m (encode j)"
  using encode_head_allowed[of j] by (simp add: marshalParams_def json_Marshal_def)

lemma Batch_requests_frame:
  "\<exists>k. snd (Batch_requests c cx specs) = c\<lparr>nextID := k\<rparr>"
proof (induction specs arbitrary: c)
  case Nil
  have "c = c\<lparr>nextID := nextID c\<rparr>" by simp
  then show ?case by (metis Batch_requests.simps(1) snd_conv)
next
  case (Cons spec specs)
  show ?case
  proof (cases "Notify spec")
    case True
    show ?thesis
    proof (cases "note_request c cx (Method spec) (Params spec)")
      case (Inl e)
      have "c = c\<lparr>nextID := nextID c\<rparr>" by simp
      with True Inl show ?thesis by (auto intro: exI[of _ "nextID c"])
    next
      case (Inr r)
      from Cons[of c] obtain k where k: "snd (Batch_requests c cx specs) = c\<lparr>nextID := k\<rparr>" ..
      with True Inr show ?thesis
        by (cases "Batch_requests c cx specs") (auto split: sum.splits)
    qed
  next
    case False
    show ?thesis
    proof (cases "marshalParams c cx (Method spec) (Params spec)")
      case (Inl e)
      have "c = c\<lparr>nextID := nextID c\<rparr>" by simp
      with False Inl show ?thesis by (auto simp: req_result intro: exI[of _ "nextID c"])
    next
      case (Inr bits)
      let ?c1 = "c\<lparr>nextID := nextID c + 1\<rparr>"
      from Cons[of ?c1] obtain k where k: "snd (Batch_requests ?c1 cx specs) = ?c1\<lparr>nextID := k\<rparr>" ..
      with False Inr show ?thesis
        by (cases "Batch_requests ?c1 cx specs") (auto simp: req_result split: sum.splits)
    qed
  qed
qed

lemma Batch_requests_fails:
  "spec \<in> set specs \<Longrightarrow> marshalParams c cx (Method spec) (Params spec) = Inl e \<Longrightarrow>
   \<exists>e'. fst (Batch_requests c cx specs) = Inl e'"
proof (induction specs arbitrary: c)
  case Nil
  then show ?case by simp
next
  case (Cons s specs)
  show ?case
  proof (cases "marshalParams c cx (Method s) (Params s)")
    case (Inl e0)
    then show ?thesis by (simp add: req_result note_request_def)
  next
    case (Inr bits)
    with Cons.prems have in_rest: "spec \<in> set specs" by auto
    show ?thesis
    proof (cases "Notify s")
      case True
      from Cons.IH[OF in_rest Cons.prems(2)] obtain e' where
        "fst (Batch_requests c cx specs) = Inl e'" ..
      with True Inr show ?thesis
        by (cases "Batch_requests c cx specs") (simp add: note_request_def)
    next
      case False
      let ?c1 = "c\<lparr>nextID := nextID c + 1\<rparr>"
      have "marshalParams ?c1 cx (Method spec) (Params spec) = Inl e"
        using Cons.prems(2) by (simp add: marshalParams_cong[of ?c1 c])
      from Cons.IH[OF in_rest this] obtain e' where
        "fst (Batch_requests ?c1 cx specs) = Inl e'" ..
      with False Inr show ?thesis
        by (cases "Batch_requests ?c1 cx specs") (simp add: req_result)
    qed
  qed
qed

text \<open>
  C4. The parameters of a request are validated after they are marshaled: when the value encodes
  to JSON that is neither an array, an object nor \<open>null\<close>, \<open>marshalParams\<close> fails with the
  \<open>InvalidRequest\<close> error "invalid parameters: array or object required"; no parameters at
  all, an array, an object and \<open>null\<close> go on to the context encoder. The
  check is on the path of \<open>Call\<close> (\<open>req\<close>), of \<open>Notify\<close> and of \<open>Batch\<close> alike, and none of
  them sends anything when it fails.
\<close>

theorem params_validated:
  "(\<not> array_object_or_null j \<longrightarrow>
      marshalParams c cx m (Some (Encodes j)) =
        Inl (RPCError \<lparr>Message = ''invalid parameters: array or object required'',
                        Code = InvalidRequest, Data = []\<rparr>) \<and>
      Call ops marshal completed c cx m (Some (Encodes j)) =
        (Fails (RPCError \<lparr>Message = ''invalid parameters: array or object required'',
                           Code = InvalidRequest, Data = []\<rparr>), c) \<and>
      Client_Notify ops marshal c cx m (Some (Encodes j)) =
        (Fails (RPCError \<lparr>Message = ''invalid parameters: array or object required'',
                           Code = InvalidRequest, Data = []\<rparr>), c)) \<and>
   (\<not> array_object_or_null j \<and> spec \<in> set specs \<and> Params spec = Some (Encodes j) \<longrightarrow>
      (\<exists>e. fst (Batch ops marshal completed c cx specs) = Fails e) \<and>
      ch (snd (Batch ops marshal completed c cx specs)) = ch c \<and>
      pending (snd (Batch ops marshal completed c cx specs)) = pending c) \<and>
   marshalParams c cx m None = enctx c cx m [] \<and>
   (array_object_or_null j \<longrightarrow>
      marshalParams c cx m (Some (Encodes j)) = enctx c cx m (encode j))"
proof (intro conjI impI)
  assume bad: "\<not> array_object_or_null j"
  note rej = marshalParams_rejects[OF bad, of c cx m]
  show "marshalParams c cx m (Some (Encodes j)) =
        Inl (RPCError \<lparr>Message = ''invalid parameters: array or object required'',
                        Code = InvalidRequest, Data = []\<rparr>)"
    by (rule rej)
  show "Call ops marshal completed c cx m (Some (Encodes j)) =
        (Fails (RPCError \<lparr>Message = ''invalid parameters: array or object required'',
                           Code = InvalidRequest, Data = []\<rparr>), c)"
    by (simp add: Call_def req_result rej)
  show "Client_Notify ops marshal c cx m (Some (Encodes j)) =
        (Fails (RPCError \<lparr>Message = ''invalid parameters: array or object required'',
                           Code = InvalidRequest, Data = []\<rparr>), c)"
    by (simp add: Client_Notify_def note_request_def rej)
next
  assume a: "\<not> array_object_or_null j \<and> spec \<in> set specs \<and> Params spec = Some (Encodes j)"
  then have "marshalParams c cx (Method spec) (Params spec) =
        Inl (RPCError \<lparr>Message = ''invalid parameters: array or object required'',
                        Code = InvalidRequest, Data = []\<rparr>)"
    using marshalParams_rejects[of j c cx "Method spec"] by simp
  with a Batch_requests_fails[of spec specs c cx] obtain e where
    e: "fst (Batch_requests c cx specs) = Inl e" by blast
  from Batch_requests_frame[of c cx specs] obtain k where
    k: "snd (Batch_requests c cx specs) = c\<lparr>nextID := k\<rparr>" ..
  from e k have b: "Batch ops marshal completed c cx specs = (Fails e, c\<lparr>nextID := k\<rparr>)"
    by (cases "Batch_requests c cx specs") (simp add: Batch_def)
  show "\<exists>e. fst (Batch ops marshal completed c cx specs) = Fails e"
    "ch (snd (Batch ops marshal completed c cx specs)) = ch c"
    "pending (snd (Batch ops marshal completed c cx specs)) = pending c"
    by (simp_all add: b)
next
  show "marshalParams c cx m None = enctx c cx m []"
    by (simp add: marshalParams_def)
next
  assume "array_object_or_null j"
  then show "marshalParams c cx m (Some (Encodes j)) = enctx c cx m (encode j)"
    by (rule marshalParams_accepts)
qed

theorem params_validated_witness:
  "\<not> array_object_or_null (JStr ''x'') \<and>
   marshalParams ex_client Background ''m'' (Some (Encodes (JStr ''x''))) =
     Inl (RPCError \<lparr>Message = ''invalid parameters: array or object required'',
                     Code = InvalidRequest, Data = []\<rparr>) \<and>
   Call ex_ops ex_marshal (\<lambda>p. (p, None)) ex_client Background ''m'' (Some (Encodes (JStr ''x''))) =
     (Fails (RPCError \<lparr>Message = ''invalid parameters: array or object required'',
                        Code = InvalidRequest, Data = []\<rparr>), ex_client) \<and>
   Client_Notify ex_ops ex_marshal ex_client Background ''m'' (Some (Encodes (JStr ''x''))) =
     (Fails (RPCError \<lparr>Message = ''invalid parameters: array or object required'',
                        Code = InvalidRequest, Data = []\<rparr>), ex_client) \<and>
   ch (snd (Batch ex_ops ex_marshal (\<lambda>p. (p, None)) ex_client Background
              [\<lparr>Method = ''a'', Params = None, Notify = False\<rparr>,
               \<lparr>Method = ''b'', Params = Some (Encodes (JStr ''x'')), Notify = True\<rparr>])) = ([], False) \<and>
   array_object_or_null (JArr [JBool True]) \<and>
   marshalParams ex_client Background ''m'' (Some (Encodes (JArr [JBool True]))) = Inr ''[true]'' \<and>
   marshalParams ex_client Background ''m'' None = Inr []"
proof -
  have bad: "\<not> array_object_or_null (JStr ''x'')" by (simp add: array_object_or_null_def)
  have good: "array_object_or_null (JArr [JBool True])" by (simp add: array_object_or_null_def)
  note inst = params_validated[where c = ex_client and cx = Background and m = "''m''"
      and ops = ex_ops and marshal = ex_marshal and completed = "\<lambda>p. (p, None)"
      and spec = "\<lparr>Method = ''b'', Params = Some (Encodes (JStr ''x'')), Notify = True\<rparr>"
      and specs = "[\<lparr>Method = ''a'', Params = None, Notify = False\<rparr>,
               \<lparr>Method = ''b'', Params = Some (Encodes (JStr ''x'')), Notify = True\<rparr>]"]
  from inst[where j = "JStr ''x''"] bad
  have a: "marshalParams ex_client Background ''m'' (Some (Encodes (JStr ''x''))) =
     Inl (RPCError \<lparr>Message = ''invalid parameters: array or object required'',
                     Code = InvalidRequest, Data = []\<rparr>)"
    "Call ex_ops ex_marshal (\<lambda>p. (p, None)) ex_client Background ''m'' (Some (Encodes (JStr ''x''))) =
     (Fails (RPCError \<lparr>Message = ''invalid parameters: array or object required'',
                        Code = InvalidRequest, Data = []\<rparr>), ex_client)"
    "Client_Notify ex_ops ex_marshal ex_client Background ''m'' (Some (Encodes (JStr ''x''))) =
     (Fails (RPCError \<lparr>Message = ''invalid parameters: array or object required'',
                        Code = InvalidRequest, Data = []\<rparr>), ex_client)"
    by blast+
  from inst[where j = "JStr ''x''"] bad
  have b: "ch (snd (Batch ex_ops ex_marshal (\<lambda>p. (p, None)) ex_client Background
              [\<lparr>Method = ''a'', Params = None, Notify = False\<rparr>,
               \<lparr>Method = ''b'', Params = Some (Encodes (JStr ''x'')), Notify = True\<rparr>])) = ([], False)"
    by (simp add: ex_client_fields)
  from inst[where j = "JArr [JBool True]"] good
  have c: "marshalParams ex_client Background ''m'' (Some (Encodes (JArr [JBool True]))) = Inr ''[true]''"
    "marshalParams ex_client Background ''m'' None = Inr []"
    by (simp_all add: ex_client_fields)
  from bad a b good c show ?thesis by blast
qed

text \<open>
  C5. \<open>Call\<close> returns the error of \<open>req\<close> or of \<open>send\<close> when building or sending the request
  fails. Otherwise it waits for the one pending response to complete; if the completed response
  carries no error, \<open>Call\<close> returns the response; if it carries an error with the code
  \<open>Cancelled\<close>, \<open>Call\<close> returns the context's cancellation error; with the code
  \<open>DeadlineExceeded\<close>, the context's deadline error; with any other code, the error of the
  response itself.
\<close>

theorem Call_result:
  "(req c cx m ps = (Inl e0, c1) \<longrightarrow>
      Call ops marshal completed c cx m ps = (Fails e0, c1)) \<and>
   (req c cx m ps = (Inr q, c1) \<and> send ops marshal c1 cx [q] = (Fails e0, c2) \<longrightarrow>
      Call ops marshal completed c cx m ps = (Fails e0, c2)) \<and>
   (req c cx m ps = (Inr q, c1) \<and> send ops marshal c1 cx [q] = (Returns pends, c2) \<longrightarrow>
      pends = [newPending cx (ID q)] \<and>
      (completed (newPending cx (ID q)) = (final, None) \<longrightarrow>
         Call ops marshal completed c cx m ps = (Returns final, c2)) \<and>
      (completed (newPending cx (ID q)) = (final, Some e) \<and> Code e = Cancelled \<longrightarrow>
         Call ops marshal completed c cx m ps = (Fails ContextCanceled, c2)) \<and>
      (completed (newPending cx (ID q)) = (final, Some e) \<and> Code e = DeadlineExceeded \<longrightarrow>
         Call ops marshal completed c cx m ps = (Fails ContextDeadlineExceeded, c2)) \<and>
      (completed (newPending cx (ID q)) = (final, Some e) \<and>
       Code e \<noteq> Cancelled \<and> Code e \<noteq> DeadlineExceeded \<longrightarrow>
         Call ops marshal completed c cx m ps = (Fails (RPCError e), c2)))"
proof (intro conjI impI)
  assume "req c cx m ps = (Inl e0, c1)"
  then show "Call ops marshal completed c cx m ps = (Fails e0, c1)"
    by (simp add: Call_def)
next
  assume "req c cx m ps = (Inr q, c1) \<and> send ops marshal c1 cx [q] = (Fails e0, c2)"
  then show "Call ops marshal completed c cx m ps = (Fails e0, c2)"
    by (simp add: Call_def)
next
  assume a: "req c cx m ps = (Inr q, c1) \<and> send ops marshal c1 cx [q] = (Returns pends, c2)"
  then have built: "req c cx m ps = (Inr q, c1)"
    and sent: "send ops marshal c1 cx [q] = (Returns pends, c2)" by simp_all
  from built have "ID q = FormatInt (sint (nextID c))"
    by (auto simp: req_result split: sum.splits)
  then have id: "ID q \<noteq> []" by (simp add: FormatInt_nonempty)
  from sent show p: "pends = [newPending cx (ID q)]"
    using id by (cases rule: send_cases[of "[q]" ops marshal c1 cx]) auto
  {
    assume "completed (newPending cx (ID q)) = (final, None)"
    then show "Call ops marshal completed c cx m ps = (Returns final, c2)"
      using built sent by (simp add: Call_def p)
  next
    assume "completed (newPending cx (ID q)) = (final, Some e) \<and> Code e = Cancelled"
    then show "Call ops marshal completed c cx m ps = (Fails ContextCanceled, c2)"
      using built sent by (simp add: Call_def p)
  next
    assume "completed (newPending cx (ID q)) = (final, Some e) \<and> Code e = DeadlineExceeded"
    then show "Call ops marshal completed c cx m ps = (Fails ContextDeadlineExceeded, c2)"
      using built sent by (simp add: Call_def p)
  next
    assume "completed (newPending cx (ID q)) = (final, Some e) \<and>
       Code e \<noteq> Cancelled \<and> Code e \<noteq> DeadlineExceeded"
    then show "Call ops marshal completed c cx m ps = (Fails (RPCError e), c2)"
      using built sent by (simp add: Call_def p)
  }
qed

theorem Call_result_witness:
  "req ex_client Background ''m'' (Some (Encodes (JStr ''x''))) =
     (Inl (RPCError \<lparr>Message = ''invalid parameters: array or object required'',
                        Code = InvalidRequest, Data = []\<rparr>), ex_client) \<and>
   Call ex_ops ex_marshal (\<lambda>p. (p, None)) ex_client Background ''m'' (Some (Encodes (JStr ''x''))) =
     (Fails (RPCError \<lparr>Message = ''invalid parameters: array or object required'',
                        Code = InvalidRequest, Data = []\<rparr>), ex_client) \<and>
   req (ex_client\<lparr>ch := ([], True)\<rparr>) Background ''m'' None =
     (Inr ex_req1, ex_client\<lparr>ch := ([], True), nextID := 2\<rparr>) \<and>
   send ex_ops ex_marshal (ex_client\<lparr>ch := ([], True), nextID := 2\<rparr>) Background [ex_req1] =
     (Fails (ErrorsNew ''send on closed channel''), ex_client\<lparr>ch := ([], True), nextID := 2\<rparr>) \<and>
   Call ex_ops ex_marshal (\<lambda>p. (p, None)) (ex_client\<lparr>ch := ([], True)\<rparr>) Background ''m'' None =
     (Fails (ErrorsNew ''send on closed channel''), ex_client\<lparr>ch := ([], True), nextID := 2\<rparr>) \<and>
   req ex_client Background ''m'' None = (Inr ex_req1, ex_client\<lparr>nextID := 2\<rparr>) \<and>
   send ex_ops ex_marshal (ex_client\<lparr>nextID := 2\<rparr>) Background [ex_req1] =
     (Returns [newPending Background ''1''], ex_busy) \<and>
   Call ex_ops ex_marshal (\<lambda>p. (p\<lparr>rsp_ch := None\<rparr>, None)) ex_client Background ''m'' None =
     (Returns (newPending Background ''1''), ex_busy) \<and>
   Call ex_ops ex_marshal
       (\<lambda>p. (p, Some \<lparr>Message = ''context canceled'', Code = Cancelled, Data = []\<rparr>))
       ex_client Background ''m'' None =
     (Fails ContextCanceled, ex_busy) \<and>
   Call ex_ops ex_marshal
       (\<lambda>p. (p, Some \<lparr>Message = ''too late'', Code = DeadlineExceeded, Data = []\<rparr>))
       ex_client Background ''m'' None =
     (Fails ContextDeadlineExceeded, ex_busy) \<and>
   Call ex_ops ex_marshal
       (\<lambda>p. (p, Some \<lparr>Message = ''no such method'', Code = MethodNotFound, Data = ''{}''\<rparr>))
       ex_client Background ''m'' None =
     (Fails (RPCError \<lparr>Message = ''no such method'', Code = MethodNotFound, Data = ''{}''\<rparr>), ex_busy)"
proof -
  have "\<not> array_object_or_null (JStr ''x'')" by (simp add: array_object_or_null_def)
  then have r0: "req ex_client Background ''m'' (Some (Encodes (JStr ''x''))) =
     (Inl (RPCError \<lparr>Message = ''invalid parameters: array or object required'',
                        Code = InvalidRequest, Data = []\<rparr>), ex_client)"
    by (simp add: req_result marshalParams_rejects)
  have r1: "req (ex_client\<lparr>ch := ([], True)\<rparr>) Background ''m'' None =
     (Inr ex_req1, ex_client\<lparr>ch := ([], True), nextID := 2\<rparr>)"
    by (simp add: req_def marshalParams_def ex_client_fields ex_req1_def FormatInt_def
        digit_def nat_dec.simps Version_def)
  have s1: "send ex_ops ex_marshal (ex_client\<lparr>ch := ([], True), nextID := 2\<rparr>) Background [ex_req1] =
     (Fails (ErrorsNew ''send on closed channel''), ex_client\<lparr>ch := ([], True), nextID := 2\<rparr>)"
    by (simp add: send_def ex_client_fields ex_req1_def ex_marshal_def ex_ops_def)
  have id1: "ID ex_req1 = ''1''" by (simp add: ex_req1_def)
  note inst = Call_result[where ops = ex_ops and marshal = ex_marshal and cx = Background
      and ps = None and ?e0.0 = "ErrorsNew ''send on closed channel''" and q = ex_req1
      and pends = "[newPending Background ''1'']"]
  from Call_result[where ops = ex_ops and marshal = ex_marshal and cx = Background
      and ps = "Some (Encodes (JStr ''x''))"
      and ?e0.0 = "RPCError \<lparr>Message = ''invalid parameters: array or object required'',
                        Code = InvalidRequest, Data = []\<rparr>"
      and q = ex_req1
      and pends = "[newPending Background ''1'']" and c = ex_client and m = "''m''"
      and ?c1.0 = ex_client and ?c2.0 = ex_client and completed = "\<lambda>p. (p, None)"
      and final = "newPending Background ''1''"
      and e = "\<lparr>Message = [], Code = Cancelled, Data = []\<rparr>"] r0
  have f0: "Call ex_ops ex_marshal (\<lambda>p. (p, None)) ex_client Background ''m'' (Some (Encodes (JStr ''x''))) =
     (Fails (RPCError \<lparr>Message = ''invalid parameters: array or object required'',
                        Code = InvalidRequest, Data = []\<rparr>), ex_client)"
    by blast
  from inst[where c = "ex_client\<lparr>ch := ([], True)\<rparr>" and m = "''m''"
      and ?c1.0 = "ex_client\<lparr>ch := ([], True), nextID := 2\<rparr>"
      and ?c2.0 = "ex_client\<lparr>ch := ([], True), nextID := 2\<rparr>" and completed = "\<lambda>p. (p, None)"
      and final = "newPending Background ''1''"
      and e = "\<lparr>Message = [], Code = Cancelled, Data = []\<rparr>"] r1 s1
  have f1: "Call ex_ops ex_marshal (\<lambda>p. (p, None)) (ex_client\<lparr>ch := ([], True)\<rparr>) Background ''m'' None =
     (Fails (ErrorsNew ''send on closed channel''), ex_client\<lparr>ch := ([], True), nextID := 2\<rparr>)"
    by blast
  note ok = inst[where c = ex_client and m = "''m''" and ?c1.0 = "ex_client\<lparr>nextID := 2\<rparr>"
      and ?c2.0 = ex_busy]
  from ok[where completed = "\<lambda>p. (p\<lparr>rsp_ch := None\<rparr>, None)" and final = "newPending Background ''1''"
      and e = "\<lparr>Message = [], Code = Cancelled, Data = []\<rparr>"] ex_req_first ex_send_first
  have a: "Call ex_ops ex_marshal (\<lambda>p. (p\<lparr>rsp_ch := None\<rparr>, None)) ex_client Background ''m'' None =
     (Returns (newPending Background ''1''), ex_busy)"
    by (simp add: id1 newPending_def)
  from ok[where completed = "\<lambda>p. (p, Some \<lparr>Message = ''context canceled'', Code = Cancelled, Data = []\<rparr>)"
      and final = "newPending Background ''1''"
      and e = "\<lparr>Message = ''context canceled'', Code = Cancelled, Data = []\<rparr>"]
    ex_req_first ex_send_first
  have b: "Call ex_ops ex_marshal
       (\<lambda>p. (p, Some \<lparr>Message = ''context canceled'', Code = Cancelled, Data = []\<rparr>))
       ex_client Background ''m'' None =
     (Fails ContextCanceled, ex_busy)"
    by (simp add: id1)
  from ok[where completed = "\<lambda>p. (p, Some \<lparr>Message = ''too late'', Code = DeadlineExceeded, Data = []\<rparr>)"
      and final = "newPending Background ''1''"
      and e = "\<lparr>Message = ''too late'', Code = DeadlineExceeded, Data = []\<rparr>"]
    ex_req_first ex_send_first
  have c: "Call ex_ops ex_marshal
       (\<lambda>p. (p, Some \<lparr>Message = ''too late'', Code = DeadlineExceeded, Data = []\<rparr>))
       ex_client Background ''m'' None =
     (Fails ContextDeadlineExceeded, ex_busy)"
    by (simp add: id1)
  from ok[where completed = "\<lambda>p. (p, Some \<lparr>Message = ''no such method'', Code = MethodNotFound, Data = ''{}''\<rparr>)"
      and final = "newPending Background ''1''"
      and e = "\<lparr>Message = ''no such method'', Code = MethodNotFound, Data = ''{}''\<rparr>"]
    ex_req_first ex_send_first
  have d: "Call ex_ops ex_marshal
       (\<lambda>p. (p, Some \<lparr>Message = ''no such method'', Code = MethodNotFound, Data = ''{}''\<rparr>))
       ex_client Background ''m'' None =
     (Fails (RPCError \<lparr>Message = ''no such method'', Code = MethodNotFound, Data = ''{}''\<rparr>), ex_busy)"
    by (simp add: id1)
  from r0 f0 r1 s1 f1 ex_req_first ex_send_first a b c d show ?thesis by blast
qed


end
